theory Spec2Isabelle
  imports Complex_Main "HOL-Library.Word" "HOL-Library.Sublist" "HOL-Library.Product_Lexorder"
begin

section \<open>Strings, numbers and errors\<close>

text \<open>
  A JavaScript string is a sequence of UTF-16 code units: \<open>.length\<close> counts code units,
  \<open>substring\<close> cuts at code units, and a regular expression without the \<open>u\<close> flag matches
  code units. Text is therefore a list of 16-bit words. Identifiers and error messages
  (content-type uids, field names, \<open>error.message\<close>) are only compared, so they are HOL
  strings. \<open>js\<close> turns a HOL string literal into its code units.

\<close>

type_synonym jschar = "16 word"
type_synonym jsstring = "jschar list"

definition js :: "string \<Rightarrow> jsstring" where
  "js s = map of_char s"

abbreviation LT :: jschar where "LT \<equiv> 0x3C"
abbreviation GT :: jschar where "GT \<equiv> 0x3E"
abbreviation SP :: jschar where "SP \<equiv> 0x20"

text \<open>
  The class \<open>\s\<close> of a regular expression, which is also what \<open>String.prototype.trim\<close>
  removes: the WhiteSpace and LineTerminator code points of ECMAScript.
\<close>

definition is_space :: "jschar \<Rightarrow> bool" where
  "is_space c \<longleftrightarrow>
     c = 0x09 \<or> c = 0x0A \<or> c = 0x0B \<or> c = 0x0C \<or> c = 0x0D \<or> c = 0x20 \<or> c = 0xA0 \<or>
     c = 0x1680 \<or> (0x2000 \<le> c \<and> c \<le> 0x200A) \<or> c = 0x2028 \<or> c = 0x2029 \<or>
     c = 0x202F \<or> c = 0x205F \<or> c = 0x3000 \<or> c = 0xFEFF"

definition trim :: "jsstring \<Rightarrow> jsstring" where
  "trim s = rev (dropWhile is_space (rev (dropWhile is_space s)))"

text \<open>
  An \<open>Error\<close> object: its message and, for the errors of the OpenAI client, its
  \<open>code\<close> (\<open>undefined\<close> is \<open>None\<close>).
\<close>

datatype js_error = Error (message: string) (code: "string option")

text \<open>
  The errors the services construct with \<open>new Error(...)\<close>, under the names the
  specification's taxonomy gives them.
\<close>

definition ProviderNotConfigured :: js_error where
  "ProviderNotConfigured = Error ''OpenAI client not initialized. Check your API key.'' None"

definition TextRequired :: js_error where
  "TextRequired = Error ''Text is required for embedding generation'' None"

definition TextTooShort :: js_error where
  "TextTooShort = Error ''Text too short for meaningful embedding'' None"

definition QuotaExceeded :: js_error where
  "QuotaExceeded = Error ''OpenAI API quota exceeded'' None"

definition InvalidCredentials :: js_error where
  "InvalidCredentials = Error ''Invalid OpenAI API key'' None"

definition RateLimited :: js_error where
  "RateLimited = Error ''OpenAI API rate limit exceeded'' None"

definition DimensionMismatch :: js_error where
  "DimensionMismatch = Error ''Invalid vectors for similarity calculation'' None"

section \<open>Numbers\<close>

text \<open>
  A JavaScript number is an IEEE double: a finite value, one of the two infinities, or
  NaN. The two zeros are one value here, \<open>Fin 0\<close>: they compare equal, and the one
  operation that tells them apart, a division by zero, is applied in this code to a
  product of two square roots only, which is never \<open>-0\<close>.

  Each operation yields the exact result rounded to a double. The rounding function
  \<open>rnd\<close>, from a real to the nearest double or an infinity, is a parameter of the
  operations; the special cases are those of IEEE 754. \<open>limit\<close> stays an integer, as
  the integers it can be are doubles and \<open>limit * 1.5\<close> is exact on them.
\<close>

datatype jsnum = NaN | NegInf | Fin real | PosInf

type_synonym vector = "jsnum list"

fun js_add :: "(real \<Rightarrow> jsnum) \<Rightarrow> jsnum \<Rightarrow> jsnum \<Rightarrow> jsnum" where
  "js_add rnd (Fin x) (Fin y) = rnd (x + y)"
| "js_add rnd NaN b = NaN"
| "js_add rnd a NaN = NaN"
| "js_add rnd PosInf NegInf = NaN"
| "js_add rnd NegInf PosInf = NaN"
| "js_add rnd PosInf b = PosInf"
| "js_add rnd a PosInf = PosInf"
| "js_add rnd NegInf b = NegInf"
| "js_add rnd a NegInf = NegInf"

fun js_sub :: "(real \<Rightarrow> jsnum) \<Rightarrow> jsnum \<Rightarrow> jsnum \<Rightarrow> jsnum" where
  "js_sub rnd (Fin x) (Fin y) = rnd (x - y)"
| "js_sub rnd NaN b = NaN"
| "js_sub rnd a NaN = NaN"
| "js_sub rnd PosInf PosInf = NaN"
| "js_sub rnd NegInf NegInf = NaN"
| "js_sub rnd PosInf b = PosInf"
| "js_sub rnd NegInf b = NegInf"
| "js_sub rnd a PosInf = NegInf"
| "js_sub rnd a NegInf = PosInf"

fun js_mul :: "(real \<Rightarrow> jsnum) \<Rightarrow> jsnum \<Rightarrow> jsnum \<Rightarrow> jsnum" where
  "js_mul rnd (Fin x) (Fin y) = rnd (x * y)"
| "js_mul rnd NaN b = NaN"
| "js_mul rnd a NaN = NaN"
| "js_mul rnd PosInf (Fin y) = (if y = 0 then NaN else if 0 < y then PosInf else NegInf)"
| "js_mul rnd NegInf (Fin y) = (if y = 0 then NaN else if 0 < y then NegInf else PosInf)"
| "js_mul rnd (Fin x) PosInf = (if x = 0 then NaN else if 0 < x then PosInf else NegInf)"
| "js_mul rnd (Fin x) NegInf = (if x = 0 then NaN else if 0 < x then NegInf else PosInf)"
| "js_mul rnd PosInf PosInf = PosInf"
| "js_mul rnd NegInf NegInf = PosInf"
| "js_mul rnd PosInf NegInf = NegInf"
| "js_mul rnd NegInf PosInf = NegInf"

text \<open>
  Division: \<open>0 / 0\<close> is NaN and any other finite number over zero is an infinity; the
  zero divisor counts as \<open>+0\<close>.
\<close>

fun js_div :: "(real \<Rightarrow> jsnum) \<Rightarrow> jsnum \<Rightarrow> jsnum \<Rightarrow> jsnum" where
  "js_div rnd (Fin x) (Fin y) =
     (if y = 0 then (if x = 0 then NaN else if 0 < x then PosInf else NegInf)
      else rnd (x / y))"
| "js_div rnd NaN b = NaN"
| "js_div rnd a NaN = NaN"
| "js_div rnd (Fin x) b = Fin 0"
| "js_div rnd PosInf (Fin y) = (if y < 0 then NegInf else PosInf)"
| "js_div rnd NegInf (Fin y) = (if y < 0 then PosInf else NegInf)"
| "js_div rnd a b = NaN"

text \<open>\<open>Math.sqrt\<close>.\<close>

fun js_sqrt :: "(real \<Rightarrow> jsnum) \<Rightarrow> jsnum \<Rightarrow> jsnum" where
  "js_sqrt rnd (Fin x) = (if x < 0 then NaN else rnd (sqrt x))"
| "js_sqrt rnd PosInf = PosInf"
| "js_sqrt rnd a = NaN"

text \<open>The comparisons \<open>a < b\<close> and \<open>a >= b\<close>: false as soon as an operand is NaN.\<close>

fun js_less :: "jsnum \<Rightarrow> jsnum \<Rightarrow> bool" where
  "js_less (Fin x) (Fin y) = (x < y)"
| "js_less NaN b = False"
| "js_less a NaN = False"
| "js_less a NegInf = False"
| "js_less PosInf b = False"
| "js_less NegInf b = True"
| "js_less a PosInf = True"

definition js_ge :: "jsnum \<Rightarrow> jsnum \<Rightarrow> bool" where
  "js_ge a b \<longleftrightarrow> a \<noteq> NaN \<and> b \<noteq> NaN \<and> \<not> js_less a b"

text \<open>
  What the results on ordering use of the rounding of doubles: zero is a double; a
  rounded value is a double; and the rounded difference \<open>y - x\<close> of two doubles is
  positive exactly when \<open>x < y\<close> (with subnormal numbers a difference of two distinct
  doubles does not round to zero, and an overflow gives the infinity of its sign).
\<close>

definition rounding :: "(real \<Rightarrow> jsnum) \<Rightarrow> bool" where
  "rounding rnd \<longleftrightarrow>
     rnd 0 = Fin 0
     \<and> (\<forall>x y. rnd x = Fin y \<longrightarrow> rnd y = Fin y)
     \<and> (\<forall>x y. rnd x = Fin x \<longrightarrow> rnd y = Fin y
            \<longrightarrow> js_less (Fin 0) (rnd (y - x)) = (x < y))"

section \<open>Text normalizer: \<open>preprocessText\<close> (embedding-service.js)\<close>

text \<open>
  \<open>text.replace(/<[^>]*>/g, ' ')\<close>. Scanning from the left, a match starts at a \<open><\<close>
  that has a \<open>>\<close> somewhere after it and runs to the first such \<open>>\<close> (the class
  \<open>[^>]\<close> cannot step over one); a \<open><\<close> with no later \<open>>\<close> is kept.
\<close>

function replace_tags :: "jsstring \<Rightarrow> jsstring" where
  "replace_tags [] = []"
| "replace_tags (c # cs) =
     (if c = LT \<and> GT \<in> set cs
      then SP # replace_tags (tl (dropWhile (\<lambda>x. x \<noteq> GT) cs))
      else c # replace_tags cs)"
  by pat_completeness auto
termination
proof (relation "measure length", goal_cases)
  case 1
  show ?case by simp
next
  case (2 c cs)
  have "length (tl (dropWhile (\<lambda>x. x \<noteq> GT) cs)) \<le> length cs"
    using length_dropWhile_le [of "\<lambda>x. x \<noteq> GT" cs] by simp
  then show ?case by simp
next
  case (3 c cs)
  show ?case by simp
qed

text \<open>\<open>cleanText.replace(/\s+/g, ' ')\<close>: every maximal run of whitespace becomes one space.\<close>

function replace_spaces :: "jsstring \<Rightarrow> jsstring" where
  "replace_spaces [] = []"
| "replace_spaces (c # cs) =
     (if is_space c then SP # replace_spaces (dropWhile is_space cs)
      else c # replace_spaces cs)"
  by pat_completeness auto
termination
proof (relation "measure length", goal_cases)
  case 1
  show ?case by simp
next
  case (2 c cs)
  show ?case using length_dropWhile_le [of is_space cs] by simp
next
  case (3 c cs)
  show ?case by simp
qed

definition preprocessText :: "jsstring \<Rightarrow> jsstring" where
  "preprocessText text =
     (if text = [] then []
      else
        let cleanText = replace_tags text;
            normalizedText = trim (replace_spaces cleanText);
            maxLength = 8000
        in if length normalizedText > maxLength
           then take maxLength normalizedText @ js ''...''
           else normalizedText)"

section \<open>Embedding client: \<open>generateEmbedding\<close>, \<open>generateBatchEmbeddings\<close> (embedding-service.js)\<close>

text \<open>
  What \<open>generateEmbedding\<close> resolves with. \<open>embedding\<close> is
  \<open>response.data[0].embedding\<close>; \<open>None\<close> stands for a response without one.
\<close>

record embedding_result =
  embedding :: "vector option"
  processedText :: jsstring
  originalLength :: nat
  processedLength :: nat

record embedding_metadata =
  model :: string
  generatedAt :: string
  dimensions :: nat
  processedText :: jsstring
  originalLength :: nat
  processedLength :: nat

text \<open>
  A JSON value of a document attribute, and the truthiness test \<open>if (data[field])\<close>.
\<close>

datatype json =
    JNull
  | JBool bool
  | JNum jsnum
  | JStr jsstring
  | JArr "json list"
  | JObj "(string \<times> json) list"

fun truthy :: "json \<Rightarrow> bool" where
  "truthy JNull = False"
| "truthy (JBool b) = b"
| "truthy (JNum n) = (n \<noteq> Fin 0 \<and> n \<noteq> NaN)"
| "truthy (JStr s) = (s \<noteq> [])"
| "truthy (JArr xs) = True"
| "truthy (JObj kvs) = True"

text \<open>
  A stored document, and the \<open>data\<close> of a write in flight: its \<open>embedding\<close> and
  \<open>embeddingMetadata\<close> attributes (\<open>None\<close> when null or absent) and, in \<open>attributes\<close>,
  every other attribute by name.
\<close>

record document =
  documentId :: string
  attributes :: "(string \<times> json) list"
  embedding :: "vector option"
  embeddingMetadata :: "embedding_metadata option"

text \<open>\<open>{...doc, similarityScore}\<close> and \<open>{...result, contentType}\<close> extend the record.\<close>

record scored = document +
  similarityScore :: jsnum

record tagged = scored +
  contentType :: string

type_synonym filters = "(string \<times> string) list"

text \<open>
  The options object of the search services; \<open>None\<close> is an absent (\<open>undefined\<close>) key,
  for which the destructuring default applies; \<open>search_locale\<close> is the key
  \<open>locale\<close>. \<open>limit\<close> is an integer, negative ones included: the controller passes
  \<open>Math.min(parseInt(limit), 50)\<close>.
\<close>

record options =
  limit :: "int option"
  threshold :: "jsnum option"
  filters :: "filters option"
  search_locale :: "string option"
  includeEmbedding :: "bool option"
  aggregateResults :: "bool option"

text \<open>
  Everything outside the services:
  \<^item> \<open>openai\<close>: \<open>this.openai\<close>, \<open>None\<close> before \<open>init\<close> found an API key; the client
    maps the input text to the outcome of \<open>embeddings.create\<close>;
  \<^item> \<open>findMany env ct fs loc\<close>: the outcome of
    \<open>strapi.documents(ct).findMany\<close> with \<open>fs\<close> for \<open>filters\<close> in
    \<open>{embedding: {$notNull: true}, ...filters}\<close>, the locale \<open>loc\<close> and \<open>limit: 1000\<close>;
  \<^item> \<open>contentTypesConfig\<close>: \<open>strapi.plugin('semantic-search').config.contentTypes\<close>;
  \<^item> \<open>stringify\<close>: \<open>JSON.stringify\<close>; \<open>now\<close>: \<open>new Date().toISOString()\<close>;
  \<^item> \<open>double\<close>: the rounding of a real to a double, by which the engine computes.
\<close>

record env =
  openai :: "(jsstring \<Rightarrow> js_error + vector option) option"
  findMany :: "string \<Rightarrow> filters \<Rightarrow> string option \<Rightarrow> js_error + document list"
  contentTypesConfig :: "(string \<times> string list) list"
  stringify :: "json \<Rightarrow> js_error + jsstring"
  now :: string
  double :: "real \<Rightarrow> jsnum"

text \<open>The \<open>try\<close> block of \<open>generateEmbedding\<close>.\<close>

definition generateEmbedding_try ::
  "(jsstring \<Rightarrow> js_error + vector option) \<Rightarrow> jsstring \<Rightarrow> js_error + embedding_result" where
  "generateEmbedding_try client text =
     (let processed = preprocessText text
      in if length processed < 10 then Inl TextTooShort
         else (case client processed of
                 Inl error \<Rightarrow> Inl error
               | Inr vec \<Rightarrow>
                   Inr \<lparr> embedding_result.embedding = vec,
                         embedding_result.processedText = processed,
                         embedding_result.originalLength = length text,
                         embedding_result.processedLength = length processed \<rparr>))"

text \<open>The \<open>catch\<close> block: what is thrown in place of the caught error.\<close>

definition generateEmbedding_catch :: "js_error \<Rightarrow> js_error" where
  "generateEmbedding_catch error =
     (if code error = Some ''insufficient_quota'' then QuotaExceeded
      else if code error = Some ''invalid_api_key'' then InvalidCredentials
      else if code error = Some ''rate_limit_exceeded'' then RateLimited
      else error)"

definition generateEmbedding :: "env \<Rightarrow> jsstring \<Rightarrow> js_error + embedding_result" where
  "generateEmbedding env text =
     (case openai env of
        None \<Rightarrow> Inl ProviderNotConfigured
      | Some client \<Rightarrow>
          if text = [] \<or> length (trim text) = 0 then Inl TextRequired
          else (case generateEmbedding_try client text of
                  Inl error \<Rightarrow> Inl (generateEmbedding_catch error)
                | Inr result \<Rightarrow> Inr result))"

text \<open>
  \<open>Promise.all\<close> over promises with the given outcomes. It fulfils with the values in
  the order of the promises, whatever the order they settle in, and rejects with the
  reason of the first promise to reject. \<open>order\<close> lists the indices in the order the
  promises settle; indices it leaves out settle after those, by index.
\<close>

definition promise_all :: "nat list \<Rightarrow> (js_error + 'a) list \<Rightarrow> js_error + 'a list" where
  "promise_all order outcomes =
     (case find (\<lambda>i. i < length outcomes \<and> isl (outcomes ! i)) (order @ [0..<length outcomes]) of
        Some i \<Rightarrow> Inl (projl (outcomes ! i))
      | None \<Rightarrow> Inr (map projr outcomes))"

text \<open>
  The \<open>for\<close> loop of \<open>generateBatchEmbeddings\<close>, from index \<open>i\<close> with the results
  pushed so far. \<open>schedule i\<close> is the order in which the calls of the batch that starts
  at \<open>i\<close> settle. The pause between two batches is not modelled.
\<close>

function generateBatchEmbeddings_loop ::
  "env \<Rightarrow> (nat \<Rightarrow> nat list) \<Rightarrow> jsstring list \<Rightarrow> nat \<Rightarrow> embedding_result list
     \<Rightarrow> js_error + embedding_result list" where
  "generateBatchEmbeddings_loop env schedule texts i results =
     (if i < length texts
      then (case promise_all (schedule i) (map (generateEmbedding env) (take 10 (drop i texts))) of
              Inl error \<Rightarrow> Inl error
            | Inr batchResults \<Rightarrow>
                generateBatchEmbeddings_loop env schedule texts (i + 10) (results @ batchResults))
      else Inr results)"
  by pat_completeness auto
termination
  by (relation "measure (\<lambda>(env, schedule, texts, i, results). length texts - i)") auto

definition generateBatchEmbeddings ::
  "env \<Rightarrow> (nat \<Rightarrow> nat list) \<Rightarrow> jsstring list \<Rightarrow> js_error + embedding_result list" where
  "generateBatchEmbeddings env schedule texts =
     (if texts = []
      then Inl (Error ''Texts array is required for batch embedding generation'' None)
      else generateBatchEmbeddings_loop env schedule texts 0 [])"

section \<open>Similarity engine: \<open>calculateCosineSimilarity\<close>, \<open>searchSimilar\<close> (vector-service.js)\<close>

text \<open>
  An absent (\<open>null\<close>, \<open>undefined\<close>) vector is \<open>None\<close>. The empty array is a vector
  like any other: \<open>![]\<close> is false.
\<close>

definition calculateCosineSimilarity ::
  "(real \<Rightarrow> jsnum) \<Rightarrow> vector option \<Rightarrow> vector option \<Rightarrow> js_error + jsnum" where
  "calculateCosineSimilarity rnd vectorA vectorB =
     (case (vectorA, vectorB) of
        (Some a, Some b) \<Rightarrow>
          if length a \<noteq> length b then Inl DimensionMismatch
          else
            let (dotProduct, magnitudeA, magnitudeB) =
                  fold (\<lambda>i (dotProduct, magnitudeA, magnitudeB).
                          (js_add rnd dotProduct (js_mul rnd (a ! i) (b ! i)),
                           js_add rnd magnitudeA (js_mul rnd (a ! i) (a ! i)),
                           js_add rnd magnitudeB (js_mul rnd (b ! i) (b ! i))))
                       [0..<length a] (Fin 0, Fin 0, Fin 0);
                magnitudeA = js_sqrt rnd magnitudeA;
                magnitudeB = js_sqrt rnd magnitudeB
            in if magnitudeA = Fin 0 \<or> magnitudeB = Fin 0 then Inr (Fin 0)
               else Inr (js_div rnd dotProduct (js_mul rnd magnitudeA magnitudeB))
      | _ \<Rightarrow> Inl DimensionMismatch)"

text \<open>
  \<open>Array.prototype.sort\<close> with a comparison function: a stable sort (ECMAScript 2019;
  the plugin asks for Node 18 or later), here by insertion. \<open>cmp a b > 0\<close> puts \<open>a\<close>
  after \<open>b\<close>; any other value of \<open>cmp a b\<close>, NaN included, leaves \<open>a\<close> before \<open>b\<close>.
\<close>

fun array_insert :: "('a \<Rightarrow> 'a \<Rightarrow> jsnum) \<Rightarrow> 'a \<Rightarrow> 'a list \<Rightarrow> 'a list" where
  "array_insert cmp x [] = [x]"
| "array_insert cmp x (y # ys) =
     (if js_less (Fin 0) (cmp x y) then y # array_insert cmp x ys else x # y # ys)"

definition array_sort :: "('a \<Rightarrow> 'a \<Rightarrow> jsnum) \<Rightarrow> 'a list \<Rightarrow> 'a list" where
  "array_sort cmp xs = foldr (array_insert cmp) xs []"

text \<open>
  \<open>xs.slice(0, end)\<close> for an integer \<open>end\<close>: a negative \<open>end\<close> counts from the end of
  the array.
\<close>

definition slice0 :: "int \<Rightarrow> 'a list \<Rightarrow> 'a list" where
  "slice0 end xs =
     (if end < 0 then take (nat (int (length xs) + end)) xs else take (nat end) xs)"

text \<open>
  The destructuring defaults \<open>limit = 10\<close>, \<open>threshold = 0.1\<close> (the double nearest to
  one tenth) and \<open>filters = {}\<close>.
\<close>

definition limit_of :: "options \<Rightarrow> int" where
  "limit_of opts = (case limit opts of None \<Rightarrow> 10 | Some l \<Rightarrow> l)"

definition threshold_of :: "(real \<Rightarrow> jsnum) \<Rightarrow> options \<Rightarrow> jsnum" where
  "threshold_of rnd opts = (case threshold opts of None \<Rightarrow> rnd (1 / 10) | Some t \<Rightarrow> t)"

definition filters_of :: "options \<Rightarrow> filters" where
  "filters_of opts = (case filters opts of None \<Rightarrow> [] | Some f \<Rightarrow> f)"

text \<open>
  The function mapped over the documents in \<open>searchSimilar\<close>; \<open>None\<close> is its \<open>null\<close>,
  for a document without embedding or whose similarity computation throws.
\<close>

definition scoreDocument :: "(real \<Rightarrow> jsnum) \<Rightarrow> vector \<Rightarrow> document \<Rightarrow> scored option" where
  "scoreDocument rnd queryEmbedding doc =
     (case document.embedding doc of
        None \<Rightarrow> None
      | Some e \<Rightarrow>
          (case calculateCosineSimilarity rnd (Some queryEmbedding) (Some e) of
             Inl error \<Rightarrow> None
           | Inr similarity \<Rightarrow> Some (document.extend doc \<lparr> similarityScore = similarity \<rparr>)))"

text \<open>The comparison function \<open>(a, b) => b.similarityScore - a.similarityScore\<close>.\<close>

definition by_score_desc ::
  "(real \<Rightarrow> jsnum) \<Rightarrow> 'a scored_scheme \<Rightarrow> 'a scored_scheme \<Rightarrow> jsnum" where
  "by_score_desc rnd a b = js_sub rnd (similarityScore b) (similarityScore a)"

definition searchSimilar :: "env \<Rightarrow> vector option \<Rightarrow> string \<Rightarrow> options \<Rightarrow> js_error + scored list" where
  "searchSimilar env queryEmbedding ct opts =
     (case queryEmbedding of
        None \<Rightarrow> Inl (Error ''Query embedding and content type are required'' None)
      | Some q \<Rightarrow>
          if ct = []
          then Inl (Error ''Query embedding and content type are required'' None)
          else
            (case findMany env ct (filters_of opts) (search_locale opts) of
               Inl error \<Rightarrow> Inl error
             | Inr documents \<Rightarrow>
                 if documents = [] then Inr []
                 else Inr (slice0 (limit_of opts)
                        (array_sort (by_score_desc (double env))
                          (map the
                            (filter (\<lambda>result. result \<noteq> None
                                       \<and> js_ge (similarityScore (the result))
                                                (threshold_of (double env) opts))
                              (map (scoreDocument (double env) q) documents)))))))"

section \<open>Search orchestrator: \<open>semanticSearch\<close>, \<open>multiContentTypeSearch\<close> (search-service.js)\<close>

text \<open>
  The response of \<open>semanticSearch\<close>, and the object that \<open>multiContentTypeSearch\<close>
  puts in its place when the search of one content type throws: that one has no
  \<open>metadata\<close> and carries \<open>error.message\<close> in \<open>error\<close>. The keys of the nested objects
  \<open>queryProcessing\<close> and \<open>searchOptions\<close> of \<open>metadata\<close> are fields of one record.
\<close>

record search_metadata =
  totalResults :: nat
  originalQuery :: jsstring
  queryProcessing_processedText :: jsstring
  embeddingDimensions :: nat
  searchOptions_limit :: int
  searchOptions_threshold :: jsnum
  searchOptions_locale :: "string option"
  filtersApplied :: bool

record search_response =
  query :: jsstring
  contentType :: string
  results :: "scored list"
  metadata :: "search_metadata option"
  error :: "string option"

definition semanticSearch :: "env \<Rightarrow> jsstring \<Rightarrow> string \<Rightarrow> options \<Rightarrow> js_error + search_response" where
  "semanticSearch env q ct opts =
     (if q = [] \<or> ct = [] then Inl (Error ''Query and content type are required'' None)
      else
        (case generateEmbedding env q of
           Inl err \<Rightarrow> Inl err
         | Inr queryResult \<Rightarrow>
             (case embedding_result.embedding queryResult of
                None \<Rightarrow> Inl (Error ''Failed to generate embedding for search query'' None)
              | Some queryEmbedding \<Rightarrow>
                  (case searchSimilar env (Some queryEmbedding) ct
                          \<lparr> limit = Some (limit_of opts),
                            threshold = Some (threshold_of (double env) opts),
                            filters = Some (filters_of opts),
                            search_locale = search_locale opts,
                            includeEmbedding = None,
                            aggregateResults = None \<rparr> of
                     Inl err \<Rightarrow> Inl err
                   | Inr found \<Rightarrow>
                       let cleanResults =
                             map (\<lambda>result.
                                    if includeEmbedding opts \<noteq> Some True
                                    then result \<lparr> document.embedding := None, embeddingMetadata := None \<rparr>
                                    else result) found
                       in Inr \<lparr> search_response.query = q,
                                search_response.contentType = ct,
                                search_response.results = cleanResults,
                                metadata = Some
                                  \<lparr> search_metadata.totalResults = length cleanResults,
                                    originalQuery = q,
                                    queryProcessing_processedText = embedding_result.processedText queryResult,
                                    embeddingDimensions = length queryEmbedding,
                                    searchOptions_limit = limit_of opts,
                                    searchOptions_threshold = threshold_of (double env) opts,
                                    searchOptions_locale = search_locale opts,
                                    filtersApplied = (filters_of opts \<noteq> []) \<rparr>,
                                error = None \<rparr>))))"

text \<open>
  The two shapes of the response of \<open>multiContentTypeSearch\<close>, with the keys of their
  \<open>metadata\<close> beside the others.
\<close>

record individual_result =
  contentType :: string
  count :: nat
  hasError :: bool

record aggregated_response =
  query :: jsstring
  contentTypes :: "string list"
  results :: "tagged list"
  totalResults :: nat
  searchedContentTypes :: "string list"
  individualResults :: "individual_result list"

record separate_response =
  query :: jsstring
  contentTypes :: "string list"
  results :: "search_response list"
  totalContentTypes :: nat
  successfulSearches :: nat

datatype multi_response =
    Aggregated aggregated_response
  | Separate separate_response


text \<open>Truthiness of \<open>sr.error\<close>: \<open>undefined\<close> and the empty string are falsy.\<close>

definition error_truthy :: "string option \<Rightarrow> bool" where
  "error_truthy e = (case e of None \<Rightarrow> False | Some msg \<Rightarrow> msg \<noteq> [])"

text \<open>
  The options of the search of one content type:
  \<open>{...options, limit: aggregateResults ? Math.ceil(limit * 1.5) : limit}\<close>, with the
  defaults \<open>limit = 10\<close> and \<open>aggregateResults = true\<close>.
\<close>

definition subOptions :: "options \<Rightarrow> options" where
  "subOptions opts =
     opts \<lparr> limit := Some (if aggregateResults opts \<noteq> Some False
                            then \<lceil>real_of_int (limit_of opts) * 1.5\<rceil>
                            else limit_of opts) \<rparr>"

text \<open>
  One element of \<open>searchPromises\<close>: the search of one content type with its
  \<open>.catch\<close>, which never rejects.
\<close>

definition searchOne :: "env \<Rightarrow> jsstring \<Rightarrow> options \<Rightarrow> string \<Rightarrow> search_response" where
  "searchOne env q opts ct =
     (case semanticSearch env q ct (subOptions opts) of
        Inr response \<Rightarrow> response
      | Inl err \<Rightarrow>
          \<lparr> search_response.query = q,
            search_response.contentType = ct,
            search_response.results = [],
            metadata = None,
            error = Some (message err) \<rparr>)"

text \<open>The two nested \<open>forEach\<close> loops that fill \<open>allResults\<close>.\<close>

definition allResults :: "search_response list \<Rightarrow> tagged list" where
  "allResults searchResults =
     concat (map (\<lambda>searchResult.
                    if search_response.results searchResult \<noteq> []
                    then map (\<lambda>result.
                                scored.extend result
                                  \<lparr> tagged.contentType = search_response.contentType searchResult \<rparr>)
                             (search_response.results searchResult)
                    else [])
                 searchResults)"

definition multiContentTypeSearch ::
  "env \<Rightarrow> jsstring \<Rightarrow> string list \<Rightarrow> options \<Rightarrow> js_error + multi_response" where
  "multiContentTypeSearch env q cts opts =
     (if q = [] \<or> cts = [] then Inl (Error ''Query and content types array are required'' None)
      else
        let searchResults = map (searchOne env q opts) cts
        in if aggregateResults opts \<noteq> Some False
           then
             let sortedResults = slice0 (limit_of opts) (array_sort (by_score_desc (double env)) (allResults searchResults))
             in Inr (Aggregated
                  \<lparr> aggregated_response.query = q,
                    aggregated_response.contentTypes = cts,
                    aggregated_response.results = sortedResults,
                    aggregated_response.totalResults = length sortedResults,
                    searchedContentTypes = cts,
                    individualResults =
                      map (\<lambda>sr. \<lparr> individual_result.contentType = search_response.contentType sr,
                                   count = length (search_response.results sr),
                                   hasError = error_truthy (error sr) \<rparr>) searchResults \<rparr>)
           else
             Inr (Separate
                  \<lparr> separate_response.query = q,
                    separate_response.contentTypes = cts,
                    separate_response.results = searchResults,
                    totalContentTypes = length cts,
                    successfulSearches = length (filter (\<lambda>sr. \<not> error_truthy (error sr)) searchResults) \<rparr>))"

section \<open>Auto-index trigger: \<open>processDocumentEmbedding\<close> (server/index.js)\<close>

text \<open>
  The lifecycle event: \<open>modelName\<close> is the uid the function reads from \<open>event.model\<close>,
  \<open>data\<close> is \<open>event.params.data\<close>, the write in flight.
\<close>

record event =
  modelName :: string
  data :: document

datatype log_level = Debug | Info | Warn | Err

text \<open>A call of \<open>strapi.log\<close>: the level, the text and, where one is passed, \<open>error.message\<close>.\<close>

type_synonym log_entry = "log_level \<times> string \<times> string option"

definition defaultTextFields :: "string list" where
  "defaultTextFields =
     [''title'', ''name'', ''content'', ''body'', ''summary'', ''description'', ''excerpt'']"

text \<open>
  The body of the \<open>forEach\<close> of \<open>extractTextContent\<close>, on the text collected so far.
  \<open>objects\<close> tells whether the version has the branch for nested objects.
\<close>

definition appendField ::
  "env \<Rightarrow> bool \<Rightarrow> document \<Rightarrow> string \<Rightarrow> jsstring \<Rightarrow> js_error + jsstring" where
  "appendField env objects d field textContent =
     (case map_of (attributes d) field of
        None \<Rightarrow> Inr textContent
      | Some v \<Rightarrow>
          if truthy v
          then (case v of
                  JStr s \<Rightarrow> Inr (textContent @ s @ [SP])
                | JArr xs \<Rightarrow>
                    (case stringify env v of
                       Inl err \<Rightarrow> Inl err
                     | Inr s \<Rightarrow> Inr (textContent @ s @ [SP]))
                | JObj kvs \<Rightarrow>
                    if objects
                    then (case stringify env v of
                            Inl err \<Rightarrow> Inl err
                          | Inr s \<Rightarrow> Inr (textContent @ s @ [SP]))
                    else Inr textContent
                | _ \<Rightarrow> Inr textContent)
          else Inr textContent)"

fun extractFields ::
  "env \<Rightarrow> bool \<Rightarrow> document \<Rightarrow> string list \<Rightarrow> jsstring \<Rightarrow> js_error + jsstring" where
  "extractFields env objects d [] textContent = Inr textContent"
| "extractFields env objects d (field # rest) textContent =
     (case appendField env objects d field textContent of
        Inl err \<Rightarrow> Inl err
      | Inr textContent' \<Rightarrow> extractFields env objects d rest textContent')"

text \<open>
  \<open>extractTextContent(data, modelName, strapi)\<close> of the version with configured field
  lists, and \<open>extractTextContent(data)\<close> of the version with the fixed list.
\<close>

definition extractTextContent :: "env \<Rightarrow> document \<Rightarrow> string \<Rightarrow> js_error + jsstring" where
  "extractTextContent env d name =
     (let textFields = (case map_of (contentTypesConfig env) name of
                          Some configured \<Rightarrow> configured
                        | None \<Rightarrow> defaultTextFields)
      in case extractFields env True d textFields [] of
           Inl err \<Rightarrow> Inl err
         | Inr textContent \<Rightarrow> Inr (trim textContent))"

definition extractTextContent_fixed :: "env \<Rightarrow> document \<Rightarrow> js_error + jsstring" where
  "extractTextContent_fixed env d =
     (case extractFields env False d defaultTextFields [] of
        Inl err \<Rightarrow> Inl err
      | Inr textContent \<Rightarrow> Inr (trim textContent))"

text \<open>
  The \<open>try\<close> block of \<open>processDocumentEmbedding\<close>, given the outcome of the text
  extraction: the data as it leaves the block and the lines logged, or the error thrown.
  The two assignments to \<open>data\<close> come after every call that can throw.
\<close>

definition processDocumentEmbedding_try ::
  "env \<Rightarrow> js_error + jsstring \<Rightarrow> event \<Rightarrow> string \<Rightarrow> js_error + document \<times> log_entry list" where
  "processDocumentEmbedding_try env extracted ev action =
     (case extracted of
        Inl err \<Rightarrow> Inl err
      | Inr textContent \<Rightarrow>
          if textContent = [] \<or> length (trim textContent) < 10
          then Inr (data ev,
                    [(Debug, ''Skipping embedding generation for '' @ modelName ev
                               @ '' - insufficient text content'', None)])
          else
            (case generateEmbedding env textContent of
               Inl err \<Rightarrow> Inl err
             | Inr embeddingResult \<Rightarrow>
                 (case embedding_result.embedding embeddingResult of
                    None \<Rightarrow> Inr (data ev, [])
                  | Some vec \<Rightarrow>
                      Inr ((data ev)
                             \<lparr> document.embedding := Some vec,
                               embeddingMetadata := Some
                                 \<lparr> model = ''text-embedding-ada-002'',
                                   generatedAt = now env,
                                   dimensions = length vec,
                                   embedding_metadata.processedText =
                                     embedding_result.processedText embeddingResult,
                                   embedding_metadata.originalLength =
                                     embedding_result.originalLength embeddingResult,
                                   embedding_metadata.processedLength =
                                     embedding_result.processedLength embeddingResult \<rparr> \<rparr>,
                           [(Info, ''Generated embedding for '' @ modelName ev
                                     @ '' document ('' @ action @ '')'', None)]))))"

text \<open>
  The whole function with its \<open>catch\<close>: \<open>Inl\<close> would be an error thrown to the caller,
  \<open>Inr\<close> is the data the write goes on with and the lines logged.
\<close>

definition processDocumentEmbedding_with ::
  "env \<Rightarrow> js_error + jsstring \<Rightarrow> event \<Rightarrow> string \<Rightarrow> js_error + document \<times> log_entry list" where
  "processDocumentEmbedding_with env extracted ev action =
     (if prefix ''admin::'' (modelName ev) \<or> prefix ''plugin::'' (modelName ev)
         \<or> modelName ev = ''plugin::users-permissions.user''
      then Inr (data ev, [])
      else
        (case processDocumentEmbedding_try env extracted ev action of
           Inr finished \<Rightarrow> Inr finished
         | Inl err \<Rightarrow>
             Inr (data ev,
                  [(Err, ''Failed to generate embedding for '' @ modelName ev @ '' document:'',
                    Some (message err))])))"

definition processDocumentEmbedding ::
  "env \<Rightarrow> event \<Rightarrow> string \<Rightarrow> js_error + document \<times> log_entry list" where
  "processDocumentEmbedding env ev action =
     processDocumentEmbedding_with env (extractTextContent env (data ev) (modelName ev)) ev action"

definition processDocumentEmbedding_fixed ::
  "env \<Rightarrow> event \<Rightarrow> string \<Rightarrow> js_error + document \<times> log_entry list" where
  "processDocumentEmbedding_fixed env ev action =
     processDocumentEmbedding_with env (extractTextContent_fixed env (data ev)) ev action"

section \<open>Notions used in the statements and proofs\<close>

text \<open>
  The magnitude that \<open>calculateCosineSimilarity\<close> computes for a vector: the rounded
  square root of the sum of the squares, accumulated from the left; and the dot product
  it accumulates.
\<close>

definition magnitude :: "(real \<Rightarrow> jsnum) \<Rightarrow> vector \<Rightarrow> jsnum" where
  "magnitude rnd a = js_sqrt rnd (foldl (\<lambda>s x. js_add rnd s (js_mul rnd x x)) (Fin 0) a)"

definition dot :: "(real \<Rightarrow> jsnum) \<Rightarrow> vector \<Rightarrow> vector \<Rightarrow> jsnum" where
  "dot rnd a b = foldl (\<lambda>s (x, y). js_add rnd s (js_mul rnd x y)) (Fin 0) (zip a b)"

text \<open>
  The array that \<open>searchSimilar\<close> sorts: the scored documents that pass the filter, in
  the order of the documents.
\<close>

definition candidates :: "(real \<Rightarrow> jsnum) \<Rightarrow> vector \<Rightarrow> jsnum \<Rightarrow> document list \<Rightarrow> scored list" where
  "candidates rnd q t documents =
     map the (filter (\<lambda>result. result \<noteq> None \<and> js_ge (similarityScore (the result)) t)
       (map (scoreDocument rnd q) documents))"

text \<open>
  A score that the comparison function orders as the numbers are ordered: not NaN and,
  when finite, a double. \<open>desc_key\<close> orders the numbers from the greatest down.
\<close>

definition score_ok :: "(real \<Rightarrow> jsnum) \<Rightarrow> jsnum \<Rightarrow> bool" where
  "score_ok rnd s \<longleftrightarrow> s \<noteq> NaN \<and> (\<forall>x. s = Fin x \<longrightarrow> rnd x = Fin x)"

fun desc_key :: "jsnum \<Rightarrow> int \<times> real" where
  "desc_key PosInf = (- 1, 0)"
| "desc_key (Fin x) = (0, - x)"
| "desc_key NegInf = (1, 0)"
| "desc_key NaN = (2, 0)"

text \<open>
  Two normal forms of a text: no \<open><\<close> has a \<open>>\<close> after it; every whitespace
  character is a single space between two other characters or at an end.
\<close>

fun no_tag :: "jsstring \<Rightarrow> bool" where
  "no_tag [] = True"
| "no_tag (c # cs) = ((c = LT \<longrightarrow> GT \<notin> set cs) \<and> no_tag cs)"

fun single_spaced :: "jsstring \<Rightarrow> bool" where
  "single_spaced [] = True"
| "single_spaced (c # cs) =
     ((is_space c \<longrightarrow> c = SP \<and> (cs \<noteq> [] \<longrightarrow> \<not> is_space (hd cs))) \<and> single_spaced cs)"

section \<open>A small installation for the scenarios\<close>

text \<open>
  An initialised client that embeds every text as \<open>[1, 0]\<close>; a store with five
  articles, whose similarities to that vector are \<open>0\<close>, \<open>-1\<close>, \<open>1\<close>, \<open>1\<close> and \<open>1\<close>,
  and whose query for any other content type throws. The arithmetic is the exact one:
  every number computed in the scenarios is an integer between \<open>-2\<close> and \<open>2\<close>, which
  the rounding to a double leaves as it is, and the default threshold is only compared
  with such scores.
\<close>

definition demo_doc :: "string \<Rightarrow> real list \<Rightarrow> document" where
  "demo_doc name components =
     \<lparr> documentId = name, attributes = [], document.embedding = Some (map Fin components),
       embeddingMetadata = None \<rparr>"

definition demo_articles :: "document list" where
  "demo_articles =
     [demo_doc ''a1'' [0, 1], demo_doc ''a2'' [- 1, 0], demo_doc ''a3'' [1, 0],
      demo_doc ''a4'' [1, 0], demo_doc ''a5'' [1, 0]]"

definition demo_vector :: vector where
  "demo_vector = [Fin 1, Fin 0]"

definition demo_env :: env where
  "demo_env =
     \<lparr> openai = Some (\<lambda>text. Inr (Some demo_vector)),
       findMany = (\<lambda>ct fs loc. if ct = ''articles'' then Inr demo_articles
                                 else Inl (Error ''Connection lost'' None)),
       contentTypesConfig = [],
       stringify = (\<lambda>v. Inr []),
       now = ''2025-01-01T00:00:00.000Z'',
       double = Fin \<rparr>"

definition demo_options :: "int option \<Rightarrow> bool option \<Rightarrow> options" where
  "demo_options l agg =
     \<lparr> limit = l, threshold = None, filters = None, search_locale = None,
       includeEmbedding = None, aggregateResults = agg \<rparr>"

text \<open>
  The query of the scenarios, and a document of the store as \<open>searchSimilar\<close> returns it
  (with its score), as \<open>semanticSearch\<close> returns it (without its embedding) and as the
  aggregation returns it (tagged with its content type).
\<close>

definition demo_query :: jsstring where
  "demo_query = js ''AI and learning''"

definition demo_scored :: "string \<Rightarrow> real list \<Rightarrow> real \<Rightarrow> scored" where
  "demo_scored name components score =
     document.extend (demo_doc name components) \<lparr> similarityScore = Fin score \<rparr>"

definition demo_found :: "string \<Rightarrow> real \<Rightarrow> scored" where
  "demo_found name score =
     \<lparr> documentId = name, attributes = [], document.embedding = None, embeddingMetadata = None,
       similarityScore = Fin score \<rparr>"

definition demo_tagged :: "string \<Rightarrow> real \<Rightarrow> string \<Rightarrow> tagged" where
  "demo_tagged name score ct =
     \<lparr> documentId = name, attributes = [], document.embedding = None, embeddingMetadata = None,
       similarityScore = Fin score, tagged.contentType = ct \<rparr>"

text \<open>
  The same installation with a provider that answers every call with a quota error, and
  the creation of an article.
\<close>

definition demo_quota_env :: env where
  "demo_quota_env =
     demo_env \<lparr> openai := Some (\<lambda>text. Inl (Error ''You exceeded your current quota''
                                              (Some ''insufficient_quota''))) \<rparr>"

definition demo_event :: event where
  "demo_event =
     \<lparr> modelName = ''api::article.article'',
       data = \<lparr> documentId = ''a5'',
                attributes = [(''title'', JStr (js ''Vector search'')), (''views'', JNum (Fin 3))],
                document.embedding = None,
                embeddingMetadata = None \<rparr> \<rparr>"

section \<open>The text normalizer is idempotent\<close>

lemma set_tl_subset: "set (tl ys) \<subseteq> set ys"
  by (cases ys) auto

lemma dropWhile_hd_id: "ys \<noteq> [] \<Longrightarrow> \<not> P (hd ys) \<Longrightarrow> dropWhile P ys = ys"
  by (cases ys) simp_all

lemma set_replace_tags: "set (replace_tags xs) \<subseteq> insert SP (set xs)"
proof (induction xs rule: replace_tags.induct)
  case 1
  show ?case by simp
next
  case (2 c cs)
  have "set (tl (dropWhile (\<lambda>x. x \<noteq> GT) cs)) \<subseteq> set cs"
    using set_tl_subset [of "dropWhile (\<lambda>x. x \<noteq> GT) cs"] set_dropWhileD [of _ "\<lambda>x. x \<noteq> GT" cs]
    by blast
  with 2 show ?case by auto
qed

lemma no_tag_replace_tags: "no_tag (replace_tags xs)"
proof (induction xs rule: replace_tags.induct)
  case 1
  show ?case by simp
next
  case (2 c cs)
  show ?case
  proof (cases "c = LT \<and> GT \<in> set cs")
    case True
    with 2 show ?thesis by simp
  next
    case False
    have "GT \<notin> set cs \<Longrightarrow> GT \<notin> set (replace_tags cs)"
      using set_replace_tags [of cs] by auto
    with False 2 show ?thesis by auto
  qed
qed

lemma replace_tags_id: "no_tag xs \<Longrightarrow> replace_tags xs = xs"
  by (induction xs) auto

lemma no_tag_append: "no_tag (xs @ ys) \<Longrightarrow> no_tag xs \<and> no_tag ys"
  by (induction xs) auto

lemma no_tag_dropWhile: "no_tag xs \<Longrightarrow> no_tag (dropWhile P xs)"
  using no_tag_append [of "takeWhile P xs" "dropWhile P xs"] by simp

lemma rev_dropWhile_rev_prefix: "rev (dropWhile P (rev xs)) @ rev (takeWhile P (rev xs)) = xs"
proof -
  have "rev (takeWhile P (rev xs) @ dropWhile P (rev xs)) = xs" by simp
  then show ?thesis by (simp only: rev_append)
qed

lemma no_tag_trim: "no_tag xs \<Longrightarrow> no_tag (trim xs)"
proof -
  assume a: "no_tag xs"
  let ?a = "dropWhile is_space xs"
  have "no_tag ?a" using a by (rule no_tag_dropWhile)
  then have "no_tag (rev (dropWhile is_space (rev ?a)) @ rev (takeWhile is_space (rev ?a)))"
    by (simp only: rev_dropWhile_rev_prefix)
  then show ?thesis unfolding trim_def using no_tag_append by blast
qed

lemma set_replace_spaces: "set (replace_spaces xs) \<subseteq> insert SP (set xs)"
proof (induction xs rule: replace_spaces.induct)
  case 1
  show ?case by simp
next
  case (2 c cs)
  have "set (dropWhile is_space cs) \<subseteq> set cs"
    by (meson set_dropWhileD subsetI)
  with 2 show ?case by auto
qed

lemma no_tag_replace_spaces: "no_tag xs \<Longrightarrow> no_tag (replace_spaces xs)"
proof (induction xs rule: replace_spaces.induct)
  case 1
  show ?case by simp
next
  case (2 c cs)
  show ?case
  proof (cases "is_space c")
    case True
    have "no_tag (dropWhile is_space cs)" using 2(3) by (simp add: no_tag_dropWhile)
    with True 2 show ?thesis by simp
  next
    case False
    have "GT \<notin> set cs \<Longrightarrow> GT \<notin> set (replace_spaces cs)"
      using set_replace_spaces [of cs] by auto
    with False 2 show ?thesis by auto
  qed
qed

lemma replace_spaces_hd:
  "xs \<noteq> [] \<Longrightarrow> \<not> is_space (hd xs) \<Longrightarrow> replace_spaces xs \<noteq> [] \<and> hd (replace_spaces xs) = hd xs"
  by (cases xs) auto

lemma single_spaced_replace_spaces: "single_spaced (replace_spaces xs)"
proof (induction xs rule: replace_spaces.induct)
  case 1
  show ?case by simp
next
  case (2 c cs)
  show ?case
  proof (cases "is_space c")
    case True
    let ?d = "dropWhile is_space cs"
    have "replace_spaces ?d \<noteq> [] \<Longrightarrow> \<not> is_space (hd (replace_spaces ?d))"
    proof -
      assume ne: "replace_spaces ?d \<noteq> []"
      then have "?d \<noteq> []" by (metis replace_spaces.simps(1))
      then have "\<not> is_space (hd ?d)" by (rule hd_dropWhile)
      with \<open>?d \<noteq> []\<close> show ?thesis using replace_spaces_hd by simp
    qed
    with True 2 show ?thesis by simp
  next
    case False
    with 2 show ?thesis by simp
  qed
qed

lemma single_spaced_append: "single_spaced (xs @ ys) \<Longrightarrow> single_spaced xs \<and> single_spaced ys"
  by (induction xs) auto

lemma single_spaced_trim: "single_spaced xs \<Longrightarrow> single_spaced (trim xs)"
proof -
  assume a: "single_spaced xs"
  let ?a = "dropWhile is_space xs"
  have "single_spaced (takeWhile is_space xs @ ?a)" using a by simp
  then have "single_spaced ?a" using single_spaced_append by blast
  then have "single_spaced (rev (dropWhile is_space (rev ?a)) @ rev (takeWhile is_space (rev ?a)))"
    by (simp only: rev_dropWhile_rev_prefix)
  then show ?thesis unfolding trim_def using single_spaced_append by blast
qed

lemma replace_spaces_id: "single_spaced xs \<Longrightarrow> replace_spaces xs = xs"
proof (induction xs)
  case Nil
  show ?case by simp
next
  case (Cons c cs)
  have "is_space c \<Longrightarrow> dropWhile is_space cs = cs"
    using Cons.prems by (cases cs) auto
  with Cons show ?case by auto
qed

lemma trim_ends: "trim xs = [] \<or> (\<not> is_space (hd (trim xs)) \<and> \<not> is_space (last (trim xs)))"
proof (cases "trim xs = []")
  case True
  then show ?thesis by simp
next
  case False
  let ?a = "dropWhile is_space xs"
  let ?b = "dropWhile is_space (rev ?a)"
  have b: "?b \<noteq> []" using False by (simp add: trim_def)
  then have hb: "\<not> is_space (hd ?b)" by (rule hd_dropWhile)
  have a: "?a \<noteq> []" using b by (metis dropWhile.simps(1) rev.simps(1))
  then have ha: "\<not> is_space (hd ?a)" by (rule hd_dropWhile)
  have "last ?b = last (rev ?a)"
    using b by (metis last_appendR takeWhile_dropWhile_id)
  then have "last ?b = hd ?a" using a by (simp add: last_rev)
  then have "hd (rev ?b) = hd ?a" using b by (simp add: hd_rev)
  moreover have "last (rev ?b) = hd ?b" using b by (simp add: last_rev)
  ultimately show ?thesis using ha hb by (simp add: trim_def)
qed

lemma trim_id: "xs = [] \<or> (\<not> is_space (hd xs) \<and> \<not> is_space (last xs)) \<Longrightarrow> trim xs = xs"
proof (cases xs)
  case Nil
  then show ?thesis by (simp add: trim_def)
next
  case (Cons c cs)
  assume "xs = [] \<or> (\<not> is_space (hd xs) \<and> \<not> is_space (last xs))"
  with Cons have h: "\<not> is_space (hd xs)" and l: "\<not> is_space (last xs)" by auto
  have 1: "dropWhile is_space xs = xs" using Cons h by simp
  have "rev xs \<noteq> []" using Cons by simp
  moreover have "hd (rev xs) = last xs" using Cons by (simp add: hd_rev)
  ultimately have 2: "dropWhile is_space (rev xs) = rev xs"
    using l by (simp add: dropWhile_hd_id)
  show ?thesis by (simp add: trim_def 1 2)
qed

lemma normalized_fixpoint:
  "trim (replace_spaces (replace_tags (trim (replace_spaces (replace_tags x)))))
     = trim (replace_spaces (replace_tags x))"
proof -
  let ?y = "trim (replace_spaces (replace_tags x))"
  have "no_tag ?y"
    by (simp add: no_tag_trim no_tag_replace_spaces no_tag_replace_tags)
  then have 1: "replace_tags ?y = ?y" by (rule replace_tags_id)
  have "single_spaced ?y"
    by (simp add: single_spaced_trim single_spaced_replace_spaces)
  then have 2: "replace_spaces ?y = ?y" by (rule replace_spaces_id)
  have 3: "trim ?y = ?y" using trim_ends [of "replace_spaces (replace_tags x)"] by (rule trim_id)
  show ?thesis by (simp only: 1 2 3)
qed

text \<open>The scenario of the specification: markup stripped, whitespace collapsed.\<close>

lemma preprocessText_hello_world: "preprocessText (js ''<p>Hello   world</p>'') = js ''Hello world''"
  by (simp add: preprocessText_def js_def is_space_def trim_def Let_def)

text \<open>
  C10. Where the normalized form of a text (tags replaced by a space, whitespace runs
  collapsed to one space, the result trimmed) has at most 8000 characters,
  \<open>preprocessText\<close> applied a second time changes nothing.
\<close>

theorem preprocessText_idempotent:
  assumes "length (trim (replace_spaces (replace_tags x))) \<le> 8000"
  shows "preprocessText (preprocessText x) = preprocessText x"
proof (cases "x = []")
  case True
  then show ?thesis by (simp add: preprocessText_def)
next
  case False
  let ?y = "trim (replace_spaces (replace_tags x))"
  have px: "preprocessText x = ?y"
    using False assms by (simp add: preprocessText_def Let_def)
  show ?thesis
  proof (cases "?y = []")
    case True
    with px show ?thesis by (simp add: preprocessText_def)
  next
    case False
    have "preprocessText ?y = ?y"
      using False assms by (simp add: preprocessText_def Let_def normalized_fixpoint)
    with px show ?thesis by simp
  qed
qed

theorem preprocessText_idempotent_witness:
  "length (trim (replace_spaces (replace_tags (js ''<p>Hello   world</p>'')))) \<le> 8000
   \<and> preprocessText (preprocessText (js ''<p>Hello   world</p>'')) = preprocessText (js ''<p>Hello   world</p>'')"
proof -
  have h: "length (trim (replace_spaces (replace_tags (js ''<p>Hello   world</p>'')))) \<le> 8000"
    by (simp add: js_def is_space_def trim_def)
  show ?thesis using h preprocessText_idempotent [OF h] by simp
qed

section \<open>Cosine similarity\<close>

lemma rounding_exact: "rounding Fin"
  by (simp add: rounding_def)

lemma similarity_loop:
  "n \<le> length a \<Longrightarrow> n \<le> length b \<Longrightarrow>
   fold (\<lambda>i (dotProduct, magnitudeA, magnitudeB).
           (js_add rnd dotProduct (js_mul rnd (a ! i) (b ! i)),
            js_add rnd magnitudeA (js_mul rnd (a ! i) (a ! i)),
            js_add rnd magnitudeB (js_mul rnd (b ! i) (b ! i))))
        [0..<n] (d, ma, mb)
   = (foldl (\<lambda>s (x, y). js_add rnd s (js_mul rnd x y)) d (zip (take n a) (take n b)),
      foldl (\<lambda>s x. js_add rnd s (js_mul rnd x x)) ma (take n a),
      foldl (\<lambda>s x. js_add rnd s (js_mul rnd x x)) mb (take n b))"
proof (induction n)
  case 0
  show ?case by simp
next
  case (Suc n)
  then have n: "n < length a" "n < length b" by simp_all
  have za: "take (Suc n) a = take n a @ [a ! n]" using n by (simp add: take_Suc_conv_app_nth)
  have zb: "take (Suc n) b = take n b @ [b ! n]" using n by (simp add: take_Suc_conv_app_nth)
  have len: "length (take n a) = length (take n b)" using n by simp
  have zz: "zip (take n a @ [a ! n]) (take n b @ [b ! n]) = zip (take n a) (take n b) @ [(a ! n, b ! n)]"
    using len by simp
  show ?case using Suc n by (simp add: za zb zz)
qed

lemma calculateCosineSimilarity_eq:
  "calculateCosineSimilarity rnd (Some a) (Some b) =
     (if length a \<noteq> length b then Inl DimensionMismatch
      else if magnitude rnd a = Fin 0 \<or> magnitude rnd b = Fin 0 then Inr (Fin 0)
      else Inr (js_div rnd (dot rnd a b) (js_mul rnd (magnitude rnd a) (magnitude rnd b))))"
proof (cases "length a = length b")
  case False
  then show ?thesis by (simp add: calculateCosineSimilarity_def)
next
  case True
  have "fold (\<lambda>i (dotProduct, magnitudeA, magnitudeB).
           (js_add rnd dotProduct (js_mul rnd (a ! i) (b ! i)),
            js_add rnd magnitudeA (js_mul rnd (a ! i) (a ! i)),
            js_add rnd magnitudeB (js_mul rnd (b ! i) (b ! i))))
        [0..<length a] (Fin 0, Fin 0, Fin 0)
      = (foldl (\<lambda>s (x, y). js_add rnd s (js_mul rnd x y)) (Fin 0) (zip a b),
         foldl (\<lambda>s x. js_add rnd s (js_mul rnd x x)) (Fin 0) a,
         foldl (\<lambda>s x. js_add rnd s (js_mul rnd x x)) (Fin 0) b)"
    using similarity_loop [of "length a" a b rnd "Fin 0" "Fin 0" "Fin 0"] True by simp
  then show ?thesis
    using True by (simp add: calculateCosineSimilarity_def magnitude_def dot_def)
qed

lemma calculateCosineSimilarity_absent:
  "calculateCosineSimilarity rnd None b = Inl DimensionMismatch"
  "calculateCosineSimilarity rnd a None = Inl DimensionMismatch"
  by (simp_all add: calculateCosineSimilarity_def split: option.splits)

text \<open>The all-zeros vector has magnitude zero.\<close>

lemma magnitude_zeros:
  assumes "rnd 0 = Fin 0" and "\<forall>x\<in>set z. x = Fin 0"
  shows "magnitude rnd z = Fin 0"
proof -
  have "foldl (\<lambda>s x. js_add rnd s (js_mul rnd x x)) (Fin 0) z = Fin 0"
    using assms(2) by (induction z) (simp_all add: assms(1))
  then show ?thesis by (simp add: magnitude_def assms(1))
qed

text \<open>
  The quotient that the test for a zero magnitude keeps the function from computing: a
  division by zero is never a finite number, and \<open>0 / 0\<close> is NaN.
\<close>

lemma division_by_zero: "js_div rnd d (Fin 0) \<in> {NaN, PosInf, NegInf}"
  by (cases d) simp_all

text \<open>
  C3. \<open>calculateCosineSimilarity\<close> throws its error exactly when a vector is absent or
  the two lengths differ (so also when exactly one of them is empty). Two empty vectors
  are not refused: the result is \<open>0\<close>.
\<close>

theorem cosine_mismatch_fails:
  "calculateCosineSimilarity rnd a b = Inl DimensionMismatch
     \<longleftrightarrow> (case (a, b) of (Some va, Some vb) \<Rightarrow> length va \<noteq> length vb | _ \<Rightarrow> True)"
proof (cases a)
  case None
  then show ?thesis by (simp add: calculateCosineSimilarity_absent)
next
  case (Some va)
  show ?thesis
  proof (cases b)
    case None
    with \<open>a = Some va\<close> show ?thesis by (simp add: calculateCosineSimilarity_absent)
  next
    case (Some vb)
    with \<open>a = Some va\<close> show ?thesis by (simp add: calculateCosineSimilarity_eq)
  qed
qed

theorem cosine_mismatch_fails_witness:
  "calculateCosineSimilarity Fin (Some [Fin 1, Fin 2]) (Some [Fin 1, Fin 2, Fin 3]) = Inl DimensionMismatch
   \<and> calculateCosineSimilarity Fin (Some []) (Some [Fin 1]) = Inl DimensionMismatch
   \<and> calculateCosineSimilarity Fin None (Some [Fin 1]) = Inl DimensionMismatch
   \<and> calculateCosineSimilarity Fin (Some [Fin 1, Fin 0]) (Some [Fin 1, Fin 0]) \<noteq> Inl DimensionMismatch"
  using cosine_mismatch_fails [of Fin "Some [Fin 1, Fin 2]" "Some [Fin 1, Fin 2, Fin 3]"]
    cosine_mismatch_fails [of Fin "Some []" "Some [Fin 1]"]
    cosine_mismatch_fails [of Fin None "Some [Fin 1]"]
    cosine_mismatch_fails [of Fin "Some [Fin 1, Fin 0]" "Some [Fin 1, Fin 0]"]
  by simp

text \<open>Both vectors empty: no error, the similarity is \<open>0\<close>.\<close>

theorem cosine_empty_counterexample:
  "calculateCosineSimilarity Fin (Some []) (Some []) = Inr (Fin 0)
   \<and> calculateCosineSimilarity Fin (Some []) (Some []) \<noteq> Inl DimensionMismatch"
  by (simp add: calculateCosineSimilarity_def)

text \<open>
  C9. For two vectors of equal length of which one has a computed magnitude of exactly
  zero, \<open>calculateCosineSimilarity\<close> returns \<open>0\<close>, whatever the other vector holds
  (infinities and NaN included) and however the doubles round; the all-zeros vector has
  such a magnitude, and so has a vector whose squares underflow to zero. The division,
  which would give NaN or an infinity, is not reached.
\<close>

theorem cosine_zero_magnitude:
  "(length a = length b \<and> (magnitude rnd a = Fin 0 \<or> magnitude rnd b = Fin 0)
      \<longrightarrow> calculateCosineSimilarity rnd (Some a) (Some b) = Inr (Fin 0))
   \<and> (rnd 0 = Fin 0 \<and> length a = length b \<and> ((\<forall>x\<in>set a. x = Fin 0) \<or> (\<forall>x\<in>set b. x = Fin 0))
      \<longrightarrow> calculateCosineSimilarity rnd (Some a) (Some b) = Inr (Fin 0))"
  using magnitude_zeros [of rnd a] magnitude_zeros [of rnd b]
  by (auto simp: calculateCosineSimilarity_eq)

theorem cosine_zero_magnitude_witness:
  "calculateCosineSimilarity Fin (Some [Fin 0, Fin 0]) (Some [Fin 3, Fin 4]) = Inr (Fin 0)
   \<and> calculateCosineSimilarity Fin (Some [Fin 3, Fin 4]) (Some [Fin 0, Fin 0]) = Inr (Fin 0)
   \<and> calculateCosineSimilarity Fin (Some [Fin 0, PosInf]) (Some [Fin 0, Fin 0]) = Inr (Fin 0)
   \<and> calculateCosineSimilarity (\<lambda>x. if \<bar>x\<bar> < 1 then Fin 0 else Fin x)
         (Some [Fin (1 / 2)]) (Some [Fin 2]) = Inr (Fin 0)
   \<and> js_div Fin (dot Fin [Fin 0, Fin 0] [Fin 3, Fin 4])
        (js_mul Fin (magnitude Fin [Fin 0, Fin 0]) (magnitude Fin [Fin 3, Fin 4])) = NaN"
proof -
  have z: "Fin 0 = Fin 0 \<and> length [Fin 0, Fin 0] = length [Fin 3, Fin 4]
             \<and> ((\<forall>x\<in>set [Fin 0, Fin 0]. x = Fin 0) \<or> (\<forall>x\<in>set [Fin 3, Fin 4]. x = Fin 0))"
    by simp
  have z': "Fin 0 = Fin 0 \<and> length [Fin 3, Fin 4] = length [Fin 0, Fin 0]
             \<and> ((\<forall>x\<in>set [Fin 3, Fin 4]. x = Fin 0) \<or> (\<forall>x\<in>set [Fin 0, Fin 0]. x = Fin 0))"
    by simp
  have m: "length [Fin 0, PosInf] = length [Fin 0, Fin 0]
             \<and> (magnitude Fin [Fin 0, PosInf] = Fin 0 \<or> magnitude Fin [Fin 0, Fin 0] = Fin 0)"
    by (simp add: magnitude_def)
  have u: "length [Fin (1 / 2)] = length [Fin 2]
             \<and> (magnitude (\<lambda>x. if \<bar>x\<bar> < 1 then Fin 0 else Fin x) [Fin (1 / 2)] = Fin 0
                \<or> magnitude (\<lambda>x. if \<bar>x\<bar> < 1 then Fin 0 else Fin x) [Fin 2] = Fin 0)"
    by (simp add: magnitude_def)
  have "sqrt 25 = 5" using real_sqrt_abs [of 5] by simp
  then have d: "js_div Fin (dot Fin [Fin 0, Fin 0] [Fin 3, Fin 4])
        (js_mul Fin (magnitude Fin [Fin 0, Fin 0]) (magnitude Fin [Fin 3, Fin 4])) = NaN"
    by (simp add: dot_def magnitude_def)
  show ?thesis
    using conjunct2 [OF cosine_zero_magnitude [of "[Fin 0, Fin 0]" "[Fin 3, Fin 4]" Fin], rule_format, OF z]
      conjunct2 [OF cosine_zero_magnitude [of "[Fin 3, Fin 4]" "[Fin 0, Fin 0]" Fin], rule_format, OF z']
      conjunct1 [OF cosine_zero_magnitude [of "[Fin 0, PosInf]" "[Fin 0, Fin 0]" Fin], rule_format, OF m]
      conjunct1 [OF cosine_zero_magnitude [of "[Fin (1 / 2)]" "[Fin 2]"
          "\<lambda>x. if \<bar>x\<bar> < 1 then Fin 0 else Fin x"], rule_format, OF u]
      d
    by simp
qed

section \<open>Ranking: \<open>searchSimilar\<close>\<close>

lemma desc_key_inj: "desc_key a = desc_key b \<longleftrightarrow> a = b"
  by (cases a; cases b) simp_all

lemma desc_key_less:
  "a \<noteq> NaN \<Longrightarrow> b \<noteq> NaN \<Longrightarrow> js_less a b \<longleftrightarrow> desc_key b < desc_key a"
  by (cases a; cases b) simp_all

lemma desc_key_ge:
  "a \<noteq> NaN \<Longrightarrow> b \<noteq> NaN \<Longrightarrow> js_ge a b \<longleftrightarrow> desc_key a \<le> desc_key b"
  by (cases a; cases b) (auto simp: js_ge_def)

text \<open>
  On scores that are not NaN and are doubles, the comparison function is positive exactly
  when its first argument has the lower score.
\<close>

lemma comparator_positive:
  assumes "rounding rnd" and "score_ok rnd a" and "score_ok rnd b"
  shows "js_less (Fin 0) (js_sub rnd b a) = js_less a b"
  using assms by (cases a; cases b) (simp_all add: rounding_def score_ok_def)

lemma array_insert_insort:
  assumes "rounding rnd" and "score_ok rnd (similarityScore x)"
    and "\<forall>y\<in>set ys. score_ok rnd (similarityScore y)"
  shows "array_insert (by_score_desc rnd) x ys = insort_key (\<lambda>r. desc_key (similarityScore r)) x ys"
  using assms(3)
proof (induction ys)
  case Nil
  show ?case by simp
next
  case (Cons y ys)
  have y: "score_ok rnd (similarityScore y)" using Cons.prems by simp
  have "js_less (Fin 0) (by_score_desc rnd x y) = js_less (similarityScore x) (similarityScore y)"
    unfolding by_score_desc_def using assms(1,2) y by (rule comparator_positive)
  also have "\<dots> \<longleftrightarrow> desc_key (similarityScore y) < desc_key (similarityScore x)"
    using assms(2) y by (simp add: desc_key_less score_ok_def)
  finally have "js_less (Fin 0) (by_score_desc rnd x y)
                  \<longleftrightarrow> \<not> desc_key (similarityScore x) \<le> desc_key (similarityScore y)"
    by (simp add: not_le)
  with Cons show ?case by simp
qed

lemma array_sort_sort_key:
  assumes "rounding rnd" and "\<forall>x\<in>set xs. score_ok rnd (similarityScore x)"
  shows "array_sort (by_score_desc rnd) xs = sort_key (\<lambda>r. desc_key (similarityScore r)) xs"
  using assms(2)
proof (induction xs)
  case Nil
  show ?case by (simp add: array_sort_def)
next
  case (Cons x xs)
  have tail: "array_sort (by_score_desc rnd) xs = sort_key (\<lambda>r. desc_key (similarityScore r)) xs"
    using Cons by simp
  have "\<forall>y\<in>set (sort_key (\<lambda>r. desc_key (similarityScore r)) xs). score_ok rnd (similarityScore y)"
    using Cons.prems by simp
  then have "array_insert (by_score_desc rnd) x (sort_key (\<lambda>r. desc_key (similarityScore r)) xs)
               = insort_key (\<lambda>r. desc_key (similarityScore r)) x
                   (sort_key (\<lambda>r. desc_key (similarityScore r)) xs)"
    using assms(1) Cons.prems by (simp add: array_insert_insort)
  then show ?case using tail by (simp add: array_sort_def)
qed

lemma array_insert_set: "set (array_insert cmp x ys) = insert x (set ys)"
  by (induction ys) auto

lemma array_sort_set: "set (array_sort cmp xs) = set xs"
  by (induction xs) (simp_all add: array_sort_def array_insert_set)

lemma array_sort_sorted:
  assumes "rounding rnd" and "\<forall>x\<in>set xs. score_ok rnd (similarityScore x)"
  shows "sorted_wrt (\<lambda>a b. js_ge (similarityScore a) (similarityScore b))
           (array_sort (by_score_desc rnd) xs)"
proof -
  let ?f = "\<lambda>r. desc_key (similarityScore r)"
  have "sorted (map ?f (sort_key ?f xs))" by (rule sorted_sort_key)
  then have "sorted_wrt (\<lambda>a b. ?f a \<le> ?f b) (sort_key ?f xs)" by (simp add: sorted_map)
  moreover have "js_ge (similarityScore a) (similarityScore b)"
    if "a \<in> set (sort_key ?f xs)" and "b \<in> set (sort_key ?f xs)" and "?f a \<le> ?f b" for a b
    using that assms(2) by (simp add: desc_key_ge score_ok_def)
  ultimately have "sorted_wrt (\<lambda>a b. js_ge (similarityScore a) (similarityScore b)) (sort_key ?f xs)"
    by (rule sorted_wrt_mono_rel [rotated])
  then show ?thesis using assms by (simp add: array_sort_sort_key)
qed

lemma array_sort_stable:
  assumes "rounding rnd" and "\<forall>x\<in>set xs. score_ok rnd (similarityScore x)"
  shows "filter (\<lambda>r. similarityScore r = k) (array_sort (by_score_desc rnd) xs)
           = filter (\<lambda>r. similarityScore r = k) xs"
proof -
  let ?f = "\<lambda>r. desc_key (similarityScore r)"
  have "filter (\<lambda>r. ?f r = desc_key k) (sort_key ?f xs) = filter (\<lambda>r. ?f r = desc_key k) xs"
    by (rule sort_key_stable)
  then show ?thesis using assms by (simp add: array_sort_sort_key desc_key_inj)
qed

lemma slice0_take: "\<exists>n. slice0 e xs = take n xs"
  by (auto simp: slice0_def)

lemma slice0_prefix: "prefix (slice0 e xs) xs"
  using slice0_take [of e xs] by (auto simp: take_is_prefix)

lemma slice0_length: "0 \<le> e \<Longrightarrow> length (slice0 e xs) \<le> nat e"
  by (simp add: slice0_def)

lemma slice0_set: "set (slice0 e xs) \<subseteq> set xs"
  using slice0_take [of e xs] by (auto dest: in_set_takeD)

lemma slice0_sorted: "sorted_wrt P xs \<Longrightarrow> sorted_wrt P (slice0 e xs)"
  using slice0_take [of e xs] by (auto simp: sorted_wrt_take)

lemma filter_prefix: "prefix xs ys \<Longrightarrow> prefix (filter P xs) (filter P ys)"
  by (auto simp: prefix_def)

lemma scoreDocument_Some:
  "scoreDocument rnd q d = Some r \<Longrightarrow> document.truncate r = d"
  by (cases d) (auto simp: scoreDocument_def document.extend_def document.truncate_def
        split: option.splits sum.splits)

text \<open>A finite similarity is a double: it is \<open>0\<close> or the rounded quotient.\<close>

lemma js_div_double:
  assumes "rounding rnd" and "js_div rnd d p = Fin x"
  shows "rnd x = Fin x"
  using assms by (cases d; cases p) (auto simp: rounding_def split: if_splits)

lemma calculateCosineSimilarity_double:
  assumes "rounding rnd" and "calculateCosineSimilarity rnd a b = Inr (Fin x)"
  shows "rnd x = Fin x"
proof -
  from assms(2) obtain va vb where ab: "a = Some va" "b = Some vb"
    by (cases a; cases b) (simp_all add: calculateCosineSimilarity_absent)
  from assms(2) have "Fin x = Fin 0
      \<or> Fin x = js_div rnd (dot rnd va vb) (js_mul rnd (magnitude rnd va) (magnitude rnd vb))"
    unfolding ab calculateCosineSimilarity_eq by (auto split: if_splits)
  then show ?thesis
  proof
    assume "Fin x = Fin 0"
    then show ?thesis using assms(1) by (simp add: rounding_def)
  next
    assume "Fin x = js_div rnd (dot rnd va vb) (js_mul rnd (magnitude rnd va) (magnitude rnd vb))"
    then show ?thesis using js_div_double [OF assms(1)] by metis
  qed
qed

lemma candidates_ok:
  assumes "rounding rnd" and "r \<in> set (candidates rnd q t documents)"
  shows "score_ok rnd (similarityScore r)" and "js_ge (similarityScore r) t"
proof -
  from assms(2) obtain d where d: "scoreDocument rnd q d = Some r" and ge: "js_ge (similarityScore r) t"
    by (auto simp: candidates_def)
  show "js_ge (similarityScore r) t" by (rule ge)
  from d obtain e where "calculateCosineSimilarity rnd (Some q) (Some e) = Inr (similarityScore r)"
    by (cases d) (auto simp: scoreDocument_def document.extend_def split: option.splits sum.splits)
  then have "rnd x = Fin x" if "similarityScore r = Fin x" for x
    using that calculateCosineSimilarity_double [OF assms(1)] by metis
  moreover have "similarityScore r \<noteq> NaN" using ge by (simp add: js_ge_def)
  ultimately show "score_ok rnd (similarityScore r)" by (simp add: score_ok_def)
qed

lemma searchSimilar_eq:
  assumes "ct \<noteq> []" and "findMany env ct (filters_of opts) (search_locale opts) = Inr documents"
  shows "searchSimilar env (Some q) ct opts
           = Inr (slice0 (limit_of opts)
                   (array_sort (by_score_desc (double env))
                     (candidates (double env) q (threshold_of (double env) opts) documents)))"
proof (cases "documents = []")
  case True
  with assms show ?thesis
    by (simp add: searchSimilar_def candidates_def array_sort_def slice0_def)
next
  case False
  with assms show ?thesis by (simp add: searchSimilar_def candidates_def)
qed

lemma candidates_by_score:
  "map document.truncate (filter (\<lambda>r. similarityScore r = k) (candidates rnd q t documents))
     = (if js_ge k t
        then filter (\<lambda>d. map_option similarityScore (scoreDocument rnd q d) = Some k) documents
        else [])"
proof (induction documents)
  case Nil
  show ?case by (simp add: candidates_def)
next
  case (Cons d ds)
  show ?case
  proof (cases "scoreDocument rnd q d")
    case None
    with Cons show ?thesis by (simp add: candidates_def)
  next
    case (Some r)
    then have "document.truncate r = d" by (rule scoreDocument_Some)
    with Some Cons show ?thesis by (auto simp: candidates_def)
  qed
qed

text \<open>The ranking of the articles of the small installation.\<close>

lemma demo_scores:
  "scoreDocument Fin demo_vector (demo_doc n [1, 0]) = Some (demo_scored n [1, 0] 1)"
  "scoreDocument Fin demo_vector (demo_doc n [0, 1]) = Some (demo_scored n [0, 1] 0)"
  "scoreDocument Fin demo_vector (demo_doc n [- 1, 0]) = Some (demo_scored n [- 1, 0] (- 1))"
  by (simp_all add: scoreDocument_def demo_doc_def demo_scored_def demo_vector_def
      calculateCosineSimilarity_eq dot_def magnitude_def)

lemma demo_scored_score: "similarityScore (demo_scored n v s) = Fin s"
  by (simp add: demo_scored_def document.extend_def)

lemma demo_candidates:
  "candidates Fin demo_vector (Fin (1 / 10)) demo_articles =
     [demo_scored ''a3'' [1, 0] 1, demo_scored ''a4'' [1, 0] 1, demo_scored ''a5'' [1, 0] 1]"
  "candidates Fin demo_vector (Fin (- 1)) demo_articles =
     [demo_scored ''a1'' [0, 1] 0, demo_scored ''a2'' [- 1, 0] (- 1), demo_scored ''a3'' [1, 0] 1,
      demo_scored ''a4'' [1, 0] 1, demo_scored ''a5'' [1, 0] 1]"
  by (simp_all add: candidates_def demo_articles_def demo_scores demo_scored_score js_ge_def)

lemma demo_ranked:
  "array_sort (by_score_desc Fin)
     [demo_scored ''a3'' [1, 0] 1, demo_scored ''a4'' [1, 0] 1, demo_scored ''a5'' [1, 0] 1]
   = [demo_scored ''a3'' [1, 0] 1, demo_scored ''a4'' [1, 0] 1, demo_scored ''a5'' [1, 0] 1]"
  "array_sort (by_score_desc Fin)
     [demo_scored ''a1'' [0, 1] 0, demo_scored ''a2'' [- 1, 0] (- 1), demo_scored ''a3'' [1, 0] 1,
      demo_scored ''a4'' [1, 0] 1, demo_scored ''a5'' [1, 0] 1]
   = [demo_scored ''a3'' [1, 0] 1, demo_scored ''a4'' [1, 0] 1, demo_scored ''a5'' [1, 0] 1,
      demo_scored ''a1'' [0, 1] 0, demo_scored ''a2'' [- 1, 0] (- 1)]"
  by (simp_all add: array_sort_def by_score_desc_def demo_scored_score)

lemma demo_env_facts:
  "double demo_env = Fin"
  "findMany demo_env ''articles'' fs loc = Inr demo_articles"
  "openai demo_env = Some (\<lambda>text. Inr (Some demo_vector))"
  by (simp_all add: demo_env_def)

lemma demo_searchSimilar:
  "searchSimilar demo_env (Some demo_vector) ''articles'' (demo_options l agg) =
     Inr (slice0 (limit_of (demo_options l agg))
       [demo_scored ''a3'' [1, 0] 1, demo_scored ''a4'' [1, 0] 1, demo_scored ''a5'' [1, 0] 1])"
proof -
  have t: "threshold_of Fin (demo_options l agg) = Fin (1 / 10)"
    by (simp add: threshold_of_def demo_options_def)
  show ?thesis
    using searchSimilar_eq [of "''articles''" demo_env "demo_options l agg" demo_articles demo_vector]
    by (simp add: demo_env_facts t demo_candidates demo_ranked)
qed

lemma demo_searchSimilar_all:
  "searchSimilar demo_env (Some demo_vector) ''articles''
      ((demo_options None None) \<lparr> threshold := Some (Fin (- 1)) \<rparr>) =
     Inr [demo_scored ''a3'' [1, 0] 1, demo_scored ''a4'' [1, 0] 1, demo_scored ''a5'' [1, 0] 1,
          demo_scored ''a1'' [0, 1] 0, demo_scored ''a2'' [- 1, 0] (- 1)]"
proof -
  let ?opts = "(demo_options None None) \<lparr> threshold := Some (Fin (- 1)) \<rparr>"
  have t: "threshold_of Fin ?opts = Fin (- 1)" "limit_of ?opts = 10"
    by (simp_all add: threshold_of_def limit_of_def demo_options_def)
  show ?thesis
    using searchSimilar_eq [of "''articles''" demo_env ?opts demo_articles demo_vector]
    by (simp add: demo_env_facts t demo_candidates demo_ranked slice0_def)
qed

text \<open>
  C5. When the store query succeeds, \<open>searchSimilar\<close> returns a list sorted by
  non-increasing similarity score, and for every score \<open>k\<close> the documents returned with
  score \<open>k\<close> are, in the order returned, an initial segment of the candidates of score
  \<open>k\<close> in the order the store gave them. The scores are the doubles that
  \<open>calculateCosineSimilarity\<close> computes, with whatever rounding the platform has; a
  document whose score is NaN is not returned.
\<close>

theorem searchSimilar_sorted_stable:
  assumes "rounding (double env)" and "ct \<noteq> []"
    and "findMany env ct (filters_of opts) (search_locale opts) = Inr documents"
  shows "\<exists>rs. searchSimilar env (Some q) ct opts = Inr rs
           \<and> sorted_wrt (\<lambda>a b. js_ge (similarityScore a) (similarityScore b)) rs
           \<and> (\<forall>k. prefix (map document.truncate (filter (\<lambda>r. similarityScore r = k) rs))
                      (filter (\<lambda>d. map_option similarityScore (scoreDocument (double env) q d) = Some k)
                         documents))"
proof -
  let ?rnd = "double env"
  let ?S = "candidates ?rnd q (threshold_of ?rnd opts) documents"
  let ?rs = "slice0 (limit_of opts) (array_sort (by_score_desc ?rnd) ?S)"
  have eq: "searchSimilar env (Some q) ct opts = Inr ?rs"
    using assms(2,3) by (rule searchSimilar_eq)
  have ok: "\<forall>x\<in>set ?S. score_ok ?rnd (similarityScore x)"
    using candidates_ok(1) [OF assms(1)] by blast
  have sorted: "sorted_wrt (\<lambda>a b. js_ge (similarityScore a) (similarityScore b)) ?rs"
    by (rule slice0_sorted) (rule array_sort_sorted [OF assms(1) ok])
  have stable: "prefix (map document.truncate (filter (\<lambda>r. similarityScore r = k) ?rs))
                  (filter (\<lambda>d. map_option similarityScore (scoreDocument ?rnd q d) = Some k) documents)" for k
  proof -
    have "prefix (filter (\<lambda>r. similarityScore r = k) ?rs)
            (filter (\<lambda>r. similarityScore r = k) (array_sort (by_score_desc ?rnd) ?S))"
      by (rule filter_prefix) (rule slice0_prefix)
    then have "prefix (filter (\<lambda>r. similarityScore r = k) ?rs) (filter (\<lambda>r. similarityScore r = k) ?S)"
      by (simp only: array_sort_stable [OF assms(1) ok])
    then have "prefix (map document.truncate (filter (\<lambda>r. similarityScore r = k) ?rs))
                 (map document.truncate (filter (\<lambda>r. similarityScore r = k) ?S))"
      by (rule map_mono_prefix)
    then show ?thesis by (simp add: candidates_by_score split: if_splits)
  qed
  show ?thesis using eq sorted stable by blast
qed

theorem searchSimilar_sorted_stable_witness:
  "searchSimilar demo_env (Some demo_vector) ''articles''
      ((demo_options None None) \<lparr> threshold := Some (Fin (- 1)) \<rparr>) =
     Inr [demo_scored ''a3'' [1, 0] 1, demo_scored ''a4'' [1, 0] 1, demo_scored ''a5'' [1, 0] 1,
          demo_scored ''a1'' [0, 1] 0, demo_scored ''a2'' [- 1, 0] (- 1)]
   \<and> prefix [demo_doc ''a3'' [1, 0], demo_doc ''a4'' [1, 0], demo_doc ''a5'' [1, 0]]
        (filter (\<lambda>d. map_option similarityScore (scoreDocument Fin demo_vector d) = Some (Fin 1))
           demo_articles)"
proof -
  let ?opts = "(demo_options None None) \<lparr> threshold := Some (Fin (- 1)) \<rparr>"
  have r: "rounding (double demo_env)" by (simp add: demo_env_facts(1) rounding_exact)
  have a: "''articles'' \<noteq> []" by simp
  have b: "findMany demo_env ''articles'' (filters_of ?opts) (search_locale ?opts) = Inr demo_articles"
    by (rule demo_env_facts(2))
  let ?R = "[demo_scored ''a3'' [1, 0] 1, demo_scored ''a4'' [1, 0] 1, demo_scored ''a5'' [1, 0] 1,
             demo_scored ''a1'' [0, 1] 0, demo_scored ''a2'' [- 1, 0] (- 1)]"
  from searchSimilar_sorted_stable [OF r a b, of demo_vector] demo_searchSimilar_all
  have "prefix (map document.truncate (filter (\<lambda>r. similarityScore r = Fin 1) ?R))
          (filter (\<lambda>d. map_option similarityScore (scoreDocument (double demo_env) demo_vector d) = Some (Fin 1))
             demo_articles)"
    by auto
  moreover have "map document.truncate (filter (\<lambda>r. similarityScore r = Fin 1) ?R)
                   = [demo_doc ''a3'' [1, 0], demo_doc ''a4'' [1, 0], demo_doc ''a5'' [1, 0]]"
    by (simp add: demo_scored_score) (simp add: demo_scored_def demo_doc_def document.extend_def document.truncate_def)
  ultimately show ?thesis using demo_searchSimilar_all by (simp add: demo_env_facts(1))
qed

text \<open>
  With a limit that is not negative, \<open>searchSimilar\<close> returns at most that many results,
  and whatever the limit, each result has a score that \<open>>=\<close> holds of against the
  threshold.
\<close>

lemma searchSimilar_bounds:
  assumes "ct \<noteq> []" and "findMany env ct (filters_of opts) (search_locale opts) = Inr documents"
  shows "\<exists>rs. searchSimilar env (Some q) ct opts = Inr rs
           \<and> (0 \<le> limit_of opts \<longrightarrow> length rs \<le> nat (limit_of opts))
           \<and> (\<forall>r\<in>set rs. js_ge (similarityScore r) (threshold_of (double env) opts))"
proof -
  let ?rnd = "double env"
  let ?S = "candidates ?rnd q (threshold_of ?rnd opts) documents"
  let ?rs = "slice0 (limit_of opts) (array_sort (by_score_desc ?rnd) ?S)"
  have eq: "searchSimilar env (Some q) ct opts = Inr ?rs"
    using assms by (rule searchSimilar_eq)
  have len: "0 \<le> limit_of opts \<longrightarrow> length ?rs \<le> nat (limit_of opts)"
    by (simp add: slice0_length)
  have "set ?rs \<subseteq> set ?S"
    using slice0_set [of "limit_of opts" "array_sort (by_score_desc ?rnd) ?S"]
    by (simp add: array_sort_set)
  then have thr: "\<forall>r\<in>set ?rs. js_ge (similarityScore r) (threshold_of ?rnd opts)"
    by (auto simp: candidates_def)
  show ?thesis using eq len thr by blast
qed

text \<open>
  C8. \<open>searchSimilar\<close> does not return at most \<open>limit\<close> results for every limit: the
  limit has no lower bound, and \<open>slice(0, limit)\<close> with a negative limit drops that many
  results from the end of the ranking instead of returning none. Of the five articles of
  the small installation three reach the default threshold, and with limit \<open>-1\<close> two of
  them are returned.
\<close>

theorem searchSimilar_negative_limit:
  "limit_of (demo_options (Some (- 1)) None) = - 1
   \<and> searchSimilar demo_env (Some demo_vector) ''articles'' (demo_options (Some (- 1)) None)
       = Inr [demo_scored ''a3'' [1, 0] 1, demo_scored ''a4'' [1, 0] 1]"
  by (simp add: demo_searchSimilar) (simp add: limit_of_def demo_options_def slice0_def)

section \<open>Embedding client\<close>

lemma generateEmbedding_catch_plain: "code e = None \<Longrightarrow> generateEmbedding_catch e = e"
  by (simp add: generateEmbedding_catch_def)

text \<open>
  C4. \<open>preprocessText\<close> itself never fails; the check is in \<open>generateEmbedding\<close>.
  On an initialised client, for a text that is not empty after trimming and whose
  preprocessed form has fewer than 10 characters, \<open>generateEmbedding\<close> throws the
  error "Text too short for meaningful embedding", whatever the provider would answer.
\<close>

theorem generateEmbedding_text_too_short:
  assumes "openai env = Some client" and "length (trim text) \<noteq> 0"
    and "length (preprocessText text) < 10"
  shows "generateEmbedding env text = Inl TextTooShort"
proof -
  have "text \<noteq> []" using assms(2) by (auto simp: trim_def)
  moreover have "generateEmbedding_try client text = Inl TextTooShort"
    using assms(3) by (simp add: generateEmbedding_try_def Let_def)
  moreover have "generateEmbedding_catch TextTooShort = TextTooShort"
    by (simp add: generateEmbedding_catch_plain TextTooShort_def)
  ultimately show ?thesis using assms(1,2) by (simp add: generateEmbedding_def)
qed

lemma preprocessText_ab: "preprocessText (js ''ab '') = js ''ab''"
  by (simp add: preprocessText_def js_def is_space_def trim_def Let_def)

theorem generateEmbedding_text_too_short_witness:
  "generateEmbedding demo_env (js ''ab '') = Inl TextTooShort"
proof -
  have a: "openai demo_env = Some (\<lambda>text. Inr (Some demo_vector))" by (simp add: demo_env_def)
  have b: "length (trim (js ''ab '')) \<noteq> 0" by (simp add: js_def trim_def is_space_def)
  have c: "length (preprocessText (js ''ab '')) < 10" by (simp add: preprocessText_ab) (simp add: js_def)
  show ?thesis using generateEmbedding_text_too_short [OF a b c] .
qed

text \<open>
  A text of three spaces normalizes to the empty text, under 10 characters, and is
  refused with "Text is required for embedding generation" instead.
\<close>

lemma demo_blank:
  "trim (js ''   '') = []" "preprocessText (js ''   '') = []"
  by (simp_all add: preprocessText_def js_def is_space_def trim_def Let_def)

theorem generateEmbedding_blank_counterexample:
  "length (preprocessText (js ''   '')) < 10
   \<and> generateEmbedding demo_env (js ''   '') = Inl TextRequired
   \<and> generateEmbedding demo_env (js ''   '') \<noteq> Inl TextTooShort"
  by (simp add: generateEmbedding_def demo_env_def demo_blank TextRequired_def TextTooShort_def)

lemma promise_all_fulfilled:
  assumes "\<forall>x\<in>set outcomes. \<not> isl x"
  shows "promise_all order outcomes = Inr (map projr outcomes)"
proof -
  have "find (\<lambda>i. i < length outcomes \<and> isl (outcomes ! i)) (order @ [0..<length outcomes]) = None"
    using assms by (auto simp: find_None_iff)
  then show ?thesis by (simp add: promise_all_def)
qed

lemma generateBatchEmbeddings_loop_fulfilled:
  assumes "\<forall>t\<in>set texts. \<not> isl (generateEmbedding env t)"
  shows "generateBatchEmbeddings_loop env schedule texts i acc
           = Inr (acc @ map (\<lambda>t. projr (generateEmbedding env t)) (drop i texts))"
  using assms
proof (induction env schedule texts i acc rule: generateBatchEmbeddings_loop.induct)
  case (1 env schedule texts i acc)
  show ?case
  proof (cases "i < length texts")
    case False
    then show ?thesis by (simp add: generateBatchEmbeddings_loop.simps [of env schedule texts i acc])
  next
    case True
    let ?batch = "take 10 (drop i texts)"
    have "\<forall>x\<in>set (map (generateEmbedding env) ?batch). \<not> isl x"
      using "1.prems" by (auto dest!: in_set_takeD in_set_dropD)
    then have pa: "promise_all (schedule i) (map (generateEmbedding env) ?batch)
                     = Inr (map projr (map (generateEmbedding env) ?batch))"
      by (rule promise_all_fulfilled)
    have ih: "generateBatchEmbeddings_loop env schedule texts (i + 10)
                (acc @ map projr (map (generateEmbedding env) ?batch))
              = Inr ((acc @ map projr (map (generateEmbedding env) ?batch))
                     @ map (\<lambda>t. projr (generateEmbedding env t)) (drop (i + 10) texts))"
      using "1.IH" [OF True pa "1.prems"] .
    have split: "drop i texts = ?batch @ drop (i + 10) texts"
      by (metis add.commute append_take_drop_id drop_drop)
    have "map (\<lambda>t. projr (generateEmbedding env t)) (drop i texts)
            = map projr (map (generateEmbedding env) ?batch)
              @ map (\<lambda>t. projr (generateEmbedding env t)) (drop (i + 10) texts)"
      by (subst split) (simp add: comp_def)
    then show ?thesis
      using True pa ih
      by (simp add: generateBatchEmbeddings_loop.simps [of env schedule texts i acc])
  qed
qed

lemma generateEmbedding_originalLength:
  "generateEmbedding env t = Inr r \<Longrightarrow> embedding_result.originalLength r = length t"
  by (auto simp: generateEmbedding_def generateEmbedding_try_def Let_def
      split: option.splits if_splits sum.splits)

text \<open>
  C6. For a non-empty list of texts on each of which \<open>generateEmbedding\<close> succeeds,
  \<open>generateBatchEmbeddings\<close> returns, whatever the order in which the calls of a batch
  settle, one result per text, the \<open>i\<close>-th being the result of the \<open>i\<close>-th text, so that
  its \<open>originalLength\<close> is the length of that text.
\<close>

theorem generateBatchEmbeddings_order:
  assumes "texts \<noteq> []" and "\<forall>t\<in>set texts. \<exists>r. generateEmbedding env t = Inr r"
  shows "\<exists>rs. generateBatchEmbeddings env schedule texts = Inr rs
           \<and> length rs = length texts
           \<and> (\<forall>i<length texts. generateEmbedding env (texts ! i) = Inr (rs ! i)
                 \<and> embedding_result.originalLength (rs ! i) = length (texts ! i))"
proof -
  let ?rs = "map (\<lambda>t. projr (generateEmbedding env t)) texts"
  have ok: "\<forall>t\<in>set texts. \<not> isl (generateEmbedding env t)" using assms(2) by auto
  have "generateBatchEmbeddings env schedule texts = Inr ?rs"
    using assms(1) generateBatchEmbeddings_loop_fulfilled [OF ok, of schedule 0 "[]"]
    by (simp add: generateBatchEmbeddings_def)
  moreover have "length ?rs = length texts" by simp
  moreover have "generateEmbedding env (texts ! i) = Inr (?rs ! i)
                   \<and> embedding_result.originalLength (?rs ! i) = length (texts ! i)"
    if "i < length texts" for i
  proof -
    from that assms(2) obtain r where r: "generateEmbedding env (texts ! i) = Inr r"
      using nth_mem by blast
    then have "?rs ! i = r" using that by simp
    with r show ?thesis using generateEmbedding_originalLength by simp
  qed
  ultimately show ?thesis by blast
qed

lemma generateEmbedding_fulfilled:
  assumes "openai env = Some client" and "trim text \<noteq> []" and "preprocessText text = p"
    and "10 \<le> length p" and "client p = Inr v"
  shows "generateEmbedding env text =
     Inr \<lparr> embedding_result.embedding = v, embedding_result.processedText = p,
           embedding_result.originalLength = length text,
           embedding_result.processedLength = length p \<rparr>"
proof -
  have "text \<noteq> []" using assms(2) by (auto simp: trim_def)
  moreover have "generateEmbedding_try client text =
     Inr \<lparr> embedding_result.embedding = v, embedding_result.processedText = p,
           embedding_result.originalLength = length text,
           embedding_result.processedLength = length p \<rparr>"
    using assms(3,4,5) by (simp add: generateEmbedding_try_def Let_def)
  ultimately show ?thesis using assms(1,2) by (simp add: generateEmbedding_def)
qed

lemma demo_openai: "openai demo_env = Some (\<lambda>text. Inr (Some demo_vector))"
  by (simp add: demo_env_def)

lemma demo_texts:
  "trim (js ''first document'') \<noteq> []"
  "preprocessText (js ''first document'') = js ''first document''"
  "trim (js ''  the <b>second</b> document'') \<noteq> []"
  "preprocessText (js ''  the <b>second</b> document'') = js ''the second document''"
  "trim (js ''a third, longer document'') \<noteq> []"
  "preprocessText (js ''a third, longer document'') = js ''a third, longer document''"
  by (simp_all add: preprocessText_def js_def is_space_def trim_def Let_def)

lemma demo_generateEmbedding:
  "generateEmbedding demo_env (js ''first document'') =
     Inr \<lparr> embedding_result.embedding = Some demo_vector,
           embedding_result.processedText = js ''first document'',
           embedding_result.originalLength = 14, embedding_result.processedLength = 14 \<rparr>"
  "generateEmbedding demo_env (js ''  the <b>second</b> document'') =
     Inr \<lparr> embedding_result.embedding = Some demo_vector,
           embedding_result.processedText = js ''the second document'',
           embedding_result.originalLength = 28, embedding_result.processedLength = 19 \<rparr>"
  "generateEmbedding demo_env (js ''a third, longer document'') =
     Inr \<lparr> embedding_result.embedding = Some demo_vector,
           embedding_result.processedText = js ''a third, longer document'',
           embedding_result.originalLength = 24, embedding_result.processedLength = 24 \<rparr>"
proof -
  have c: "(\<lambda>text::jsstring. (Inr (Some demo_vector) :: js_error + vector option)) p = Inr (Some demo_vector)" for p
    by simp
  have l: "10 \<le> length (js ''first document'')" "10 \<le> length (js ''the second document'')"
    "10 \<le> length (js ''a third, longer document'')"
    by (simp_all add: js_def)
  have n: "length (js ''first document'') = 14" "length (js ''the second document'') = 19"
    "length (js ''a third, longer document'') = 24" "length (js ''  the <b>second</b> document'') = 28"
    by (simp_all add: js_def)
  show "generateEmbedding demo_env (js ''first document'') =
     Inr \<lparr> embedding_result.embedding = Some demo_vector,
           embedding_result.processedText = js ''first document'',
           embedding_result.originalLength = 14, embedding_result.processedLength = 14 \<rparr>"
    using generateEmbedding_fulfilled [OF demo_openai demo_texts(1) demo_texts(2) l(1) c]
    by (simp only: n)
  show "generateEmbedding demo_env (js ''  the <b>second</b> document'') =
     Inr \<lparr> embedding_result.embedding = Some demo_vector,
           embedding_result.processedText = js ''the second document'',
           embedding_result.originalLength = 28, embedding_result.processedLength = 19 \<rparr>"
    using generateEmbedding_fulfilled [OF demo_openai demo_texts(3) demo_texts(4) l(2) c]
    by (simp only: n)
  show "generateEmbedding demo_env (js ''a third, longer document'') =
     Inr \<lparr> embedding_result.embedding = Some demo_vector,
           embedding_result.processedText = js ''a third, longer document'',
           embedding_result.originalLength = 24, embedding_result.processedLength = 24 \<rparr>"
    using generateEmbedding_fulfilled [OF demo_openai demo_texts(5) demo_texts(6) l(3) c]
    by (simp only: n)
qed

theorem generateBatchEmbeddings_order_witness:
  "\<exists>rs. generateBatchEmbeddings demo_env (\<lambda>i. [2, 0, 1])
           [js ''first document'', js ''  the <b>second</b> document'', js ''a third, longer document'']
         = Inr rs
      \<and> map embedding_result.originalLength rs = [14, 28, 24]"
proof -
  let ?texts = "[js ''first document'', js ''  the <b>second</b> document'', js ''a third, longer document'']"
  have a: "?texts \<noteq> []" by simp
  have b: "\<forall>t\<in>set ?texts. \<exists>r. generateEmbedding demo_env t = Inr r"
    by (simp add: demo_generateEmbedding)
  from generateBatchEmbeddings_order [OF a b, of "\<lambda>i. [2, 0, 1]"]
  obtain rs where h: "generateBatchEmbeddings demo_env (\<lambda>i. [2, 0, 1]) ?texts = Inr rs
      \<and> length rs = length ?texts
      \<and> (\<forall>i<length ?texts. generateEmbedding demo_env (?texts ! i) = Inr (rs ! i)
                 \<and> embedding_result.originalLength (rs ! i) = length (?texts ! i))" ..
  from h have rs: "generateBatchEmbeddings demo_env (\<lambda>i. [2, 0, 1]) ?texts = Inr rs"
    by (rule conjunct1)
  from h have len: "length rs = length ?texts"
    by (rule conjunct1 [OF conjunct2])
  from h have each: "\<forall>i<length ?texts. generateEmbedding demo_env (?texts ! i) = Inr (rs ! i)
                 \<and> embedding_result.originalLength (rs ! i) = length (?texts ! i)"
    by (rule conjunct2 [OF conjunct2])
  from len obtain x y z where xyz: "rs = [x, y, z]"
    by (auto simp: length_Suc_conv)
  have "embedding_result.originalLength (rs ! 0) = length (js ''first document'')"
    using each [rule_format, of 0] by simp
  moreover have "embedding_result.originalLength (rs ! 1) = length (js ''  the <b>second</b> document'')"
    using each [rule_format, of 1] by simp
  moreover have "embedding_result.originalLength (rs ! 2) = length (js ''a third, longer document'')"
    using each [rule_format, of 2] by simp
  moreover have "length (js ''first document'') = 14"
    "length (js ''  the <b>second</b> document'') = 28"
    "length (js ''a third, longer document'') = 24"
    by (simp_all add: js_def)
  ultimately have "map embedding_result.originalLength rs = [14, 28, 24]"
    using xyz by simp
  with rs show ?thesis by (intro exI conjI)
qed

section \<open>Search over several content types\<close>

lemma semanticSearch_response:
  assumes "semanticSearch env q ct opts = Inr response"
  shows "error response = None" and "search_response.contentType response = ct"
    and "search_response.query response = q"
  using assms
  by (auto simp: semanticSearch_def Let_def split: if_splits sum.splits option.splits)

lemma searchOne_fulfilled:
  "semanticSearch env q ct (subOptions opts) = Inr response \<Longrightarrow> searchOne env q opts ct = response"
  by (simp add: searchOne_def)

lemma searchOne_rejected:
  "semanticSearch env q ct (subOptions opts) = Inl e \<Longrightarrow>
   searchOne env q opts ct =
     \<lparr> search_response.query = q, search_response.contentType = ct,
       search_response.results = [], metadata = None, error = Some (message e) \<rparr>"
  by (simp add: searchOne_def)

lemma searchOne_contentType: "search_response.contentType (searchOne env q opts ct) = ct"
  by (cases "semanticSearch env q ct (subOptions opts)")
     (simp_all add: searchOne_rejected searchOne_fulfilled semanticSearch_response)


lemma searchOne_results:
  "search_response.results (searchOne env q opts ct)
     = (case semanticSearch env q ct (subOptions opts) of
          Inr response \<Rightarrow> search_response.results response | Inl e \<Rightarrow> [])"
  by (cases "semanticSearch env q ct (subOptions opts)")
     (simp_all add: searchOne_rejected searchOne_fulfilled)


lemma slice0_map: "slice0 e (map f xs) = map f (slice0 e xs)"
  by (simp add: slice0_def take_map)


lemma semanticSearch_fulfilled:
  assumes "q \<noteq> []" and "ct \<noteq> []" and "generateEmbedding env q = Inr qr"
    and "embedding_result.embedding qr = Some v"
    and "findMany env ct (filters_of opts) (search_locale opts) = Inr documents"
  shows "\<exists>response. semanticSearch env q ct opts = Inr response
           \<and> search_response.results response =
               map (\<lambda>result. if includeEmbedding opts \<noteq> Some True
                              then result \<lparr> document.embedding := None, embeddingMetadata := None \<rparr>
                              else result)
                 (slice0 (limit_of opts)
                    (array_sort (by_score_desc (double env))
                       (candidates (double env) v (threshold_of (double env) opts) documents)))"
proof -
  let ?inner = "\<lparr> limit = Some (limit_of opts), threshold = Some (threshold_of (double env) opts),
                   filters = Some (filters_of opts), search_locale = search_locale opts,
                   includeEmbedding = None, aggregateResults = None \<rparr>"
  have i: "limit_of ?inner = limit_of opts"
    "threshold_of (double env) ?inner = threshold_of (double env) opts"
    "filters_of ?inner = filters_of opts" "search_locale ?inner = search_locale opts"
    by (simp_all add: limit_of_def threshold_of_def filters_of_def)
  have f: "findMany env ct (filters_of ?inner) (search_locale ?inner) = Inr documents"
    using assms(5) by (simp only: i)
  have "searchSimilar env (Some v) ct ?inner
          = Inr (slice0 (limit_of opts)
                   (array_sort (by_score_desc (double env))
                      (candidates (double env) v (threshold_of (double env) opts) documents)))"
    using searchSimilar_eq [OF assms(2) f, of v] by (simp only: i)
  then show ?thesis
    using assms(1-4) by (simp add: semanticSearch_def Let_def)
qed

lemma semanticSearch_rejected:
  assumes "q \<noteq> []" and "ct \<noteq> []" and "generateEmbedding env q = Inr qr"
    and "embedding_result.embedding qr = Some v"
    and "findMany env ct (filters_of opts) (search_locale opts) = Inl e"
  shows "semanticSearch env q ct opts = Inl e"
proof -
  let ?inner = "\<lparr> limit = Some (limit_of opts), threshold = Some (threshold_of (double env) opts),
                   filters = Some (filters_of opts), search_locale = search_locale opts,
                   includeEmbedding = None, aggregateResults = None \<rparr>"
  have "findMany env ct (filters_of ?inner) (search_locale ?inner) = Inl e"
    using assms(5) by (simp add: filters_of_def)
  then have "searchSimilar env (Some v) ct ?inner = Inl e"
    using assms(2) by (simp add: searchSimilar_def)
  then show ?thesis
    using assms(1-4) by (simp add: semanticSearch_def)
qed

lemma demo_query_facts:
  "demo_query \<noteq> []" "trim demo_query \<noteq> []" "preprocessText demo_query = demo_query"
  "10 \<le> length demo_query"
  by (simp_all add: demo_query_def preprocessText_def js_def is_space_def trim_def Let_def)

lemma demo_query_embedding:
  "generateEmbedding demo_env demo_query =
     Inr \<lparr> embedding_result.embedding = Some demo_vector,
           embedding_result.processedText = demo_query,
           embedding_result.originalLength = length demo_query,
           embedding_result.processedLength = length demo_query \<rparr>"
proof -
  have c: "(\<lambda>text::jsstring. (Inr (Some demo_vector) :: js_error + vector option)) demo_query
             = Inr (Some demo_vector)"
    by simp
  show ?thesis
    by (rule generateEmbedding_fulfilled [OF demo_openai demo_query_facts(2) demo_query_facts(3)
          demo_query_facts(4) c])
qed

lemma demo_clean:
  "(demo_scored name vec score) \<lparr> document.embedding := None, embeddingMetadata := None \<rparr>
     = demo_found name score"
  by (simp add: demo_scored_def document.extend_def demo_doc_def demo_found_def)

lemma demo_semanticSearch_articles:
  "\<exists>response. semanticSearch demo_env demo_query ''articles'' (demo_options l agg) = Inr response
      \<and> search_response.results response =
          slice0 (limit_of (demo_options l agg))
            [demo_found ''a3'' 1, demo_found ''a4'' 1, demo_found ''a5'' 1]"
proof -
  have a: "''articles'' \<noteq> []" by simp
  have f: "findMany demo_env ''articles'' (filters_of (demo_options l agg))
             (search_locale (demo_options l agg)) = Inr demo_articles"
    by (rule demo_env_facts(2))
  have e: "embedding_result.embedding
             \<lparr> embedding_result.embedding = Some demo_vector,
               embedding_result.processedText = demo_query,
               embedding_result.originalLength = length demo_query,
               embedding_result.processedLength = length demo_query \<rparr> = Some demo_vector"
    by simp
  have t: "threshold_of Fin (demo_options l agg) = Fin (1 / 10)"
    "includeEmbedding (demo_options l agg) = None"
    by (simp_all add: threshold_of_def demo_options_def)
  from semanticSearch_fulfilled [OF demo_query_facts(1) a demo_query_embedding e f]
  show ?thesis
    by (simp add: demo_env_facts(1) t demo_candidates demo_ranked slice0_map [symmetric] demo_clean)
qed

lemma demo_semanticSearch_other:
  assumes "ct \<noteq> []" and "ct \<noteq> ''articles''"
  shows "semanticSearch demo_env demo_query ct opts = Inl (Error ''Connection lost'' None)"
proof -
  have f: "findMany demo_env ct (filters_of opts) (search_locale opts)
             = Inl (Error ''Connection lost'' None)"
    using assms(2) by (simp add: demo_env_def)
  have e: "embedding_result.embedding
             \<lparr> embedding_result.embedding = Some demo_vector,
               embedding_result.processedText = demo_query,
               embedding_result.originalLength = length demo_query,
               embedding_result.processedLength = length demo_query \<rparr> = Some demo_vector"
    by simp
  show ?thesis
    by (rule semanticSearch_rejected [OF demo_query_facts(1) assms(1) demo_query_embedding e f])
qed

lemma demo_subOptions:
  "subOptions (demo_options l (Some False)) = demo_options (Some (limit_of (demo_options l (Some False)))) (Some False)"
  "subOptions (demo_options l None) =
     demo_options (Some \<lceil>real_of_int (limit_of (demo_options l None)) * 1.5\<rceil>) None"
  by (simp_all add: subOptions_def demo_options_def)

lemma demo_limits:
  "limit_of (demo_options None agg) = 10" "limit_of (demo_options (Some l) agg) = l"
  by (simp_all add: limit_of_def demo_options_def)



lemma subOptions_aggregated:
  "aggregateResults opts \<noteq> Some False \<Longrightarrow>
   subOptions opts = opts \<lparr> limit := Some \<lceil>real_of_int (limit_of opts) * 1.5\<rceil> \<rparr>"
  by (simp add: subOptions_def)

lemma allResults_searchOne:
  "allResults (map (searchOne env q opts) cts) =
     concat (map (\<lambda>ct. case semanticSearch env q ct (subOptions opts) of
                          Inr response \<Rightarrow>
                            map (\<lambda>result. scored.extend result \<lparr> tagged.contentType = ct \<rparr>)
                              (search_response.results response)
                        | Inl e \<Rightarrow> []) cts)"
proof -
  have "(if search_response.results (searchOne env q opts ct) \<noteq> []
         then map (\<lambda>result. scored.extend result
                     \<lparr> tagged.contentType = search_response.contentType (searchOne env q opts ct) \<rparr>)
                (search_response.results (searchOne env q opts ct))
         else [])
        = (case semanticSearch env q ct (subOptions opts) of
             Inr response \<Rightarrow>
               map (\<lambda>result. scored.extend result \<lparr> tagged.contentType = ct \<rparr>)
                 (search_response.results response)
           | Inl e \<Rightarrow> [])" for ct
    by (cases "semanticSearch env q ct (subOptions opts)")
       (simp_all add: searchOne_contentType searchOne_results)
  then show ?thesis by (simp add: allResults_def comp_def)
qed

lemma tagged_extend:
  "tagged.contentType (scored.extend r \<lparr> tagged.contentType = ct \<rparr>) = ct"
  "scored.truncate (scored.extend r \<lparr> tagged.contentType = ct \<rparr>) = r"
  "similarityScore (scored.extend r \<lparr> tagged.contentType = ct \<rparr>) = similarityScore r"
  by (cases r; simp add: scored.extend_def scored.truncate_def)+

lemma searchSimilar_scores:
  assumes "rounding (double env)" and "searchSimilar env qe ct opts = Inr rs" and "r \<in> set rs"
  shows "score_ok (double env) (similarityScore r)"
proof -
  from assms(2) obtain q where q: "qe = Some q" and ct: "ct \<noteq> []"
    by (cases qe) (auto simp: searchSimilar_def split: if_splits)
  from assms(2) q ct obtain documents where
    f: "findMany env ct (filters_of opts) (search_locale opts) = Inr documents"
    by (cases "findMany env ct (filters_of opts) (search_locale opts)")
       (auto simp: searchSimilar_def)
  let ?S = "candidates (double env) q (threshold_of (double env) opts) documents"
  from assms(2) have "rs = slice0 (limit_of opts) (array_sort (by_score_desc (double env)) ?S)"
    unfolding q searchSimilar_eq [OF ct f] by simp
  with assms(3) have "r \<in> set ?S"
    using slice0_set [of "limit_of opts" "array_sort (by_score_desc (double env)) ?S"]
    by (auto simp: array_sort_set)
  then show ?thesis by (rule candidates_ok(1) [OF assms(1)])
qed

lemma semanticSearch_scores:
  assumes "rounding (double env)" and "semanticSearch env q ct opts = Inr response"
    and "r \<in> set (search_response.results response)"
  shows "score_ok (double env) (similarityScore r)"
proof -
  from assms(2) obtain v inner found where
    s: "searchSimilar env (Some v) ct inner = Inr found"
    and res: "search_response.results response =
                map (\<lambda>result. if includeEmbedding opts \<noteq> Some True
                               then result \<lparr> document.embedding := None, embeddingMetadata := None \<rparr>
                               else result) found"
    by (auto simp: semanticSearch_def Let_def split: if_splits sum.splits option.splits)
  from assms(3) res obtain x where x: "x \<in> set found" and "similarityScore r = similarityScore x"
    by auto
  then show ?thesis using searchSimilar_scores [OF assms(1) s x] by simp
qed

text \<open>
  In the aggregated mode the search of each content type is issued with the limit
  \<open>\<lceil>L * 1.5\<rceil>\<close>; the results of the searches that succeeded, each tagged with its
  content type, are put in one list, which is sorted by non-increasing similarity score
  and cut by \<open>slice(0, L)\<close>: to at most \<open>L\<close> entries when \<open>L\<close> is not negative.
\<close>

lemma multiContentTypeSearch_merge:
  assumes "rounding (double env)" and "q \<noteq> []" and "cts \<noteq> []"
    and "aggregateResults opts \<noteq> Some False"
  shows "\<exists>r. multiContentTypeSearch env q cts opts = Inr (Aggregated r)
           \<and> aggregated_response.results r =
               slice0 (limit_of opts)
                 (array_sort (by_score_desc (double env))
                   (concat (map (\<lambda>ct.
                      case semanticSearch env q ct
                             (opts \<lparr> limit := Some \<lceil>real_of_int (limit_of opts) * 1.5\<rceil> \<rparr>) of
                        Inr response \<Rightarrow>
                          map (\<lambda>result. scored.extend result \<lparr> tagged.contentType = ct \<rparr>)
                            (search_response.results response)
                      | Inl e \<Rightarrow> []) cts)))
           \<and> sorted_wrt (\<lambda>a b. js_ge (similarityScore a) (similarityScore b))
               (aggregated_response.results r)
           \<and> (0 \<le> limit_of opts \<longrightarrow> length (aggregated_response.results r) \<le> nat (limit_of opts))
           \<and> (\<forall>x\<in>set (aggregated_response.results r).
                 tagged.contentType x \<in> set cts
                 \<and> (\<exists>response.
                       semanticSearch env q (tagged.contentType x)
                         (opts \<lparr> limit := Some \<lceil>real_of_int (limit_of opts) * 1.5\<rceil> \<rparr>) = Inr response
                       \<and> scored.truncate x \<in> set (search_response.results response)))"
proof -
  let ?rnd = "double env"
  let ?sub = "opts \<lparr> limit := Some \<lceil>real_of_int (limit_of opts) * 1.5\<rceil> \<rparr>"
  let ?all = "concat (map (\<lambda>ct.
                      case semanticSearch env q ct ?sub of
                        Inr response \<Rightarrow>
                          map (\<lambda>result. scored.extend result \<lparr> tagged.contentType = ct \<rparr>)
                            (search_response.results response)
                      | Inl e \<Rightarrow> []) cts)"
  let ?rs = "slice0 (limit_of opts) (array_sort (by_score_desc ?rnd) ?all)"
  have all: "allResults (map (searchOne env q opts) cts) = ?all"
    using subOptions_aggregated [OF assms(4)] by (simp add: allResults_searchOne)
  obtain r where r: "multiContentTypeSearch env q cts opts = Inr (Aggregated r)"
    and rs: "aggregated_response.results r = ?rs"
    using assms(2-4) all by (simp add: multiContentTypeSearch_def Let_def)
  have origin': "tagged.contentType x \<in> set cts
                 \<and> (\<exists>response. semanticSearch env q (tagged.contentType x) ?sub = Inr response
                       \<and> scored.truncate x \<in> set (search_response.results response)
                       \<and> score_ok ?rnd (similarityScore x))"
    if "x \<in> set ?all" for x
  proof -
    from that obtain ct where ct: "ct \<in> set cts"
      and x: "x \<in> set (case semanticSearch env q ct ?sub of
                        Inr response \<Rightarrow>
                          map (\<lambda>result. scored.extend result \<lparr> tagged.contentType = ct \<rparr>)
                            (search_response.results response)
                      | Inl e \<Rightarrow> [])"
      by auto
    show ?thesis
    proof (cases "semanticSearch env q ct ?sub")
      case (Inl e)
      with x show ?thesis by simp
    next
      case (Inr response)
      with x obtain result where res: "result \<in> set (search_response.results response)"
        and "x = scored.extend result \<lparr> tagged.contentType = ct \<rparr>"
        by auto
      with ct Inr semanticSearch_scores [OF assms(1) Inr res] show ?thesis
        by (simp add: tagged_extend)
    qed
  qed
  then have ok: "\<forall>x\<in>set ?all. score_ok ?rnd (similarityScore x)" by blast
  have sorted: "sorted_wrt (\<lambda>a b. js_ge (similarityScore a) (similarityScore b)) ?rs"
    by (rule slice0_sorted) (rule array_sort_sorted [OF assms(1) ok])
  have len: "0 \<le> limit_of opts \<longrightarrow> length ?rs \<le> nat (limit_of opts)"
    by (simp add: slice0_length)
  have origin: "tagged.contentType x \<in> set cts
                 \<and> (\<exists>response. semanticSearch env q (tagged.contentType x) ?sub = Inr response
                       \<and> scored.truncate x \<in> set (search_response.results response))"
    if "x \<in> set ?rs" for x
  proof -
    have "x \<in> set (array_sort (by_score_desc ?rnd) ?all)"
      using that slice0_set [of "limit_of opts" "array_sort (by_score_desc ?rnd) ?all"] by blast
    then have "x \<in> set ?all" by (simp only: array_sort_set)
    then show ?thesis using origin' by blast
  qed
  show ?thesis
    using r rs sorted len origin by (intro exI [of _ r]) simp
qed

lemma demo_tag:
  "scored.extend (demo_found name score) \<lparr> tagged.contentType = ct \<rparr> = demo_tagged name score ct"
  by (simp add: scored.extend_def demo_found_def demo_tagged_def)

lemma demo_tagged_score: "similarityScore (demo_tagged name score ct) = Fin score"
  by (simp add: demo_tagged_def)

text \<open>
  C7. The aggregated \<open>multiContentTypeSearch\<close> does not cut its result to at most \<open>L\<close>
  entries for every limit \<open>L\<close>: the limit has no lower bound. Over \<open>articles\<close> and
  \<open>blogs\<close> with the limit \<open>-1\<close>, each search is issued with \<open>\<lceil>-1.5\<rceil> = -1\<close>, the
  search of the articles returns all but the last of its three results, and the merged
  list loses its last entry in \<open>slice(0, -1)\<close>: one result is returned.
\<close>

theorem multiContentTypeSearch_negative_limit:
  "multiContentTypeSearch demo_env demo_query [''articles'', ''blogs''] (demo_options (Some (- 1)) None)
     = Inr (Aggregated
         \<lparr> aggregated_response.query = demo_query,
           aggregated_response.contentTypes = [''articles'', ''blogs''],
           aggregated_response.results = [demo_tagged ''a3'' 1 ''articles''],
           aggregated_response.totalResults = 1,
           searchedContentTypes = [''articles'', ''blogs''],
           individualResults =
             [\<lparr> individual_result.contentType = ''articles'', count = 2, hasError = False \<rparr>,
              \<lparr> individual_result.contentType = ''blogs'', count = 0, hasError = True \<rparr>] \<rparr>)
   \<and> limit_of (subOptions (demo_options (Some (- 1)) None)) = - 1
   \<and> \<not> int (length [demo_tagged ''a3'' 1 ''articles'']) \<le> limit_of (demo_options (Some (- 1)) None)"
proof -
  let ?opts = "demo_options (Some (- 1)) None"
  have sub: "subOptions ?opts = demo_options (Some (- 1)) None"
    by (simp add: demo_subOptions demo_limits)
  from demo_semanticSearch_articles [of "Some (- 1)" None]
  obtain response where h:
    "semanticSearch demo_env demo_query ''articles'' (demo_options (Some (- 1)) None) = Inr response
     \<and> search_response.results response =
          slice0 (limit_of (demo_options (Some (- 1)) None))
            [demo_found ''a3'' 1, demo_found ''a4'' 1, demo_found ''a5'' 1]" ..
  from h have art: "semanticSearch demo_env demo_query ''articles'' (subOptions ?opts) = Inr response"
    unfolding sub by (rule conjunct1)
  from h have res: "search_response.results response = [demo_found ''a3'' 1, demo_found ''a4'' 1]"
    by (simp add: demo_limits slice0_def)
  have blog: "semanticSearch demo_env demo_query ''blogs'' (subOptions ?opts)
                = Inl (Error ''Connection lost'' None)"
    by (rule demo_semanticSearch_other) simp_all
  have one: "searchOne demo_env demo_query ?opts ''articles'' = response"
    using art by (rule searchOne_fulfilled)
  have two: "searchOne demo_env demo_query ?opts ''blogs'' =
     \<lparr> search_response.query = demo_query, search_response.contentType = ''blogs'',
       search_response.results = [], metadata = None, error = Some ''Connection lost'' \<rparr>"
    using searchOne_rejected [OF blog] by simp
  have all: "allResults (map (searchOne demo_env demo_query ?opts) [''articles'', ''blogs''])
               = [demo_tagged ''a3'' 1 ''articles'', demo_tagged ''a4'' 1 ''articles'']"
    unfolding allResults_searchOne by (simp add: art blog res demo_tag)
  have all': "allResults
                [response,
                 \<lparr> search_response.query = demo_query, search_response.contentType = ''blogs'',
                   search_response.results = [], metadata = None, error = Some ''Connection lost'' \<rparr>]
               = [demo_tagged ''a3'' 1 ''articles'', demo_tagged ''a4'' 1 ''articles'']"
    using all by (simp add: one two)
  have sorted: "array_sort (by_score_desc Fin)
                  [demo_tagged ''a3'' 1 ''articles'', demo_tagged ''a4'' 1 ''articles'']
                  = [demo_tagged ''a3'' 1 ''articles'', demo_tagged ''a4'' 1 ''articles'']"
    by (simp add: array_sort_def by_score_desc_def demo_tagged_score)
  have agg: "aggregateResults ?opts \<noteq> Some False" by (simp add: demo_options_def)
  have "multiContentTypeSearch demo_env demo_query [''articles'', ''blogs''] ?opts
     = Inr (Aggregated
         \<lparr> aggregated_response.query = demo_query,
           aggregated_response.contentTypes = [''articles'', ''blogs''],
           aggregated_response.results = [demo_tagged ''a3'' 1 ''articles''],
           aggregated_response.totalResults = 1,
           searchedContentTypes = [''articles'', ''blogs''],
           individualResults =
             [\<lparr> individual_result.contentType = ''articles'', count = 2, hasError = False \<rparr>,
              \<lparr> individual_result.contentType = ''blogs'', count = 0, hasError = True \<rparr>] \<rparr>)"
    using agg demo_query_facts(1)
    by (simp add: multiContentTypeSearch_def Let_def one two all' sorted demo_limits
          slice0_def res semanticSearch_response [OF art] error_truthy_def demo_env_facts(1))
  then show ?thesis by (simp add: demo_limits sub)
qed

section \<open>Auto-index trigger\<close>

lemma processDocumentEmbedding_with_returns:
  "\<exists>d l. processDocumentEmbedding_with env extracted ev action = Inr (d, l)"
  by (cases "processDocumentEmbedding_try env extracted ev action")
     (auto simp: processDocumentEmbedding_with_def)

lemma processDocumentEmbedding_with_failure:
  assumes "extracted = Inl e
           \<or> (\<exists>t. extracted = Inr t \<and> \<not> (t = [] \<or> length (trim t) < 10)
                  \<and> generateEmbedding env t = Inl e)"
    and "\<not> (prefix ''admin::'' (modelName ev) \<or> prefix ''plugin::'' (modelName ev)
             \<or> modelName ev = ''plugin::users-permissions.user'')"
  shows "processDocumentEmbedding_with env extracted ev action =
           Inr (data ev,
                [(Err, ''Failed to generate embedding for '' @ modelName ev @ '' document:'',
                  Some (message e))])"
proof -
  have "processDocumentEmbedding_try env extracted ev action = Inl e"
    using assms(1) by (auto simp: processDocumentEmbedding_try_def)
  then show ?thesis using assms(2) by (simp add: processDocumentEmbedding_with_def)
qed

text \<open>Every error of the provider's call makes \<open>generateEmbedding\<close> throw.\<close>

lemma generateEmbedding_provider_failure:
  assumes "openai env = Some client" and "trim text \<noteq> []"
    and "10 \<le> length (preprocessText text)" and "client (preprocessText text) = Inl e"
  shows "generateEmbedding env text = Inl (generateEmbedding_catch e)"
proof -
  have "text \<noteq> []" using assms(2) by (auto simp: trim_def)
  moreover have "generateEmbedding_try client text = Inl e"
    using assms(3,4) by (simp add: generateEmbedding_try_def Let_def)
  ultimately show ?thesis using assms(1,2) by (simp add: generateEmbedding_def)
qed

text \<open>
  C2. \<open>processDocumentEmbedding\<close>, in the version with configured field lists and in the
  one with the fixed list, never throws. When it runs (the model is not an admin or plugin
  one) and the text extraction throws, or \<open>generateEmbedding\<close> throws on the extracted text,
  as it does with the error of the catch block whenever the call of the provider fails,
  the function returns, the data of the write is what it was, and the error is logged.
\<close>

theorem processDocumentEmbedding_fail_open:
  "(\<exists>d l. processDocumentEmbedding env ev action = Inr (d, l))
   \<and> (\<exists>d l. processDocumentEmbedding_fixed env ev action = Inr (d, l))
   \<and> (\<not> (prefix ''admin::'' (modelName ev) \<or> prefix ''plugin::'' (modelName ev)
             \<or> modelName ev = ''plugin::users-permissions.user'')
        \<longrightarrow>
        ((extractTextContent env (data ev) (modelName ev) = Inl e
            \<or> (\<exists>t. extractTextContent env (data ev) (modelName ev) = Inr t
                   \<and> \<not> (t = [] \<or> length (trim t) < 10) \<and> generateEmbedding env t = Inl e))
          \<longrightarrow> processDocumentEmbedding env ev action =
                Inr (data ev,
                     [(Err, ''Failed to generate embedding for '' @ modelName ev @ '' document:'',
                       Some (message e))]))
        \<and> ((extractTextContent_fixed env (data ev) = Inl e
            \<or> (\<exists>t. extractTextContent_fixed env (data ev) = Inr t
                   \<and> \<not> (t = [] \<or> length (trim t) < 10) \<and> generateEmbedding env t = Inl e))
          \<longrightarrow> processDocumentEmbedding_fixed env ev action =
                Inr (data ev,
                     [(Err, ''Failed to generate embedding for '' @ modelName ev @ '' document:'',
                       Some (message e))]))
        \<and> ((\<exists>client t. openai env = Some client
                   \<and> extractTextContent env (data ev) (modelName ev) = Inr t
                   \<and> 10 \<le> length (trim t) \<and> 10 \<le> length (preprocessText t)
                   \<and> client (preprocessText t) = Inl e)
          \<longrightarrow> processDocumentEmbedding env ev action =
                Inr (data ev,
                     [(Err, ''Failed to generate embedding for '' @ modelName ev @ '' document:'',
                       Some (message (generateEmbedding_catch e)))]))
        \<and> ((\<exists>client t. openai env = Some client
                   \<and> extractTextContent_fixed env (data ev) = Inr t
                   \<and> 10 \<le> length (trim t) \<and> 10 \<le> length (preprocessText t)
                   \<and> client (preprocessText t) = Inl e)
          \<longrightarrow> processDocumentEmbedding_fixed env ev action =
                Inr (data ev,
                     [(Err, ''Failed to generate embedding for '' @ modelName ev @ '' document:'',
                       Some (message (generateEmbedding_catch e)))])))"
proof -
  have provider: "extracted = Inl (generateEmbedding_catch e)
           \<or> (\<exists>t. extracted = Inr t \<and> \<not> (t = [] \<or> length (trim t) < 10)
                  \<and> generateEmbedding env t = Inl (generateEmbedding_catch e))"
    if "\<exists>client t. openai env = Some client \<and> extracted = Inr t
          \<and> 10 \<le> length (trim t) \<and> 10 \<le> length (preprocessText t)
          \<and> client (preprocessText t) = Inl e" for extracted
  proof -
    from that obtain client t where c: "openai env = Some client" and x: "extracted = Inr t"
      and l: "10 \<le> length (trim t)" and p: "10 \<le> length (preprocessText t)"
      and f: "client (preprocessText t) = Inl e"
      by blast
    have "trim t \<noteq> []" using l by auto
    then have "generateEmbedding env t = Inl (generateEmbedding_catch e)"
      using c p f by (simp add: generateEmbedding_provider_failure)
    moreover have "t \<noteq> []" using l by (auto simp: trim_def)
    ultimately show ?thesis using x l by simp
  qed
  show ?thesis
    unfolding processDocumentEmbedding_def processDocumentEmbedding_fixed_def
    using processDocumentEmbedding_with_returns processDocumentEmbedding_with_failure
      processDocumentEmbedding_with_failure [OF provider]
    by (intro conjI impI) blast+
qed

lemma demo_title:
  "trim (js ''Vector search'') = js ''Vector search''"
  "trim (js ''Vector search'' @ [SP]) = js ''Vector search''"
  "preprocessText (js ''Vector search'') = js ''Vector search''"
  "length (js ''Vector search'') = 13"
  "js ''Vector search'' \<noteq> []"
  by (simp_all add: preprocessText_def js_def is_space_def trim_def Let_def)

lemma demo_extract:
  "extractTextContent demo_quota_env (data demo_event) (modelName demo_event) = Inr (js ''Vector search'')"
  "extractTextContent_fixed demo_quota_env (data demo_event) = Inr (js ''Vector search'')"
  by (simp_all add: extractTextContent_def extractTextContent_fixed_def demo_quota_env_def demo_env_def
      demo_event_def defaultTextFields_def appendField_def demo_title)

lemma demo_quota:
  "generateEmbedding demo_quota_env (js ''Vector search'') = Inl QuotaExceeded"
proof -
  have o: "openai demo_quota_env =
             Some (\<lambda>text. Inl (Error ''You exceeded your current quota'' (Some ''insufficient_quota'')))"
    by (simp add: demo_quota_env_def)
  have t: "trim (js ''Vector search'') \<noteq> []" by (simp add: demo_title)
  have l: "10 \<le> length (preprocessText (js ''Vector search''))" by (simp add: demo_title)
  have c: "(\<lambda>text::jsstring. (Inl (Error ''You exceeded your current quota'' (Some ''insufficient_quota''))
              :: js_error + vector option)) (preprocessText (js ''Vector search''))
           = Inl (Error ''You exceeded your current quota'' (Some ''insufficient_quota''))"
    by simp
  show ?thesis
    using generateEmbedding_provider_failure [OF o t l c]
    by (simp add: generateEmbedding_catch_def)
qed

theorem processDocumentEmbedding_fail_open_witness:
  "processDocumentEmbedding demo_quota_env demo_event ''create'' =
     Inr (data demo_event,
          [(Err, ''Failed to generate embedding for api::article.article document:'',
            Some ''OpenAI API quota exceeded'')])
   \<and> processDocumentEmbedding_fixed demo_quota_env demo_event ''create'' =
     Inr (data demo_event,
          [(Err, ''Failed to generate embedding for api::article.article document:'',
            Some ''OpenAI API quota exceeded'')])"
proof -
  let ?quota = "Error ''You exceeded your current quota'' (Some ''insufficient_quota'')"
  have m: "\<not> (prefix ''admin::'' (modelName demo_event) \<or> prefix ''plugin::'' (modelName demo_event)
             \<or> modelName demo_event = ''plugin::users-permissions.user'')"
    by (simp add: demo_event_def)
  have f: "extractTextContent demo_quota_env (data demo_event) (modelName demo_event) = Inl QuotaExceeded
            \<or> (\<exists>t. extractTextContent demo_quota_env (data demo_event) (modelName demo_event) = Inr t
                   \<and> \<not> (t = [] \<or> length (trim t) < 10)
                   \<and> generateEmbedding demo_quota_env t = Inl QuotaExceeded)"
    by (simp add: demo_extract demo_quota demo_title)
  have g: "extractTextContent_fixed demo_quota_env (data demo_event) = Inl QuotaExceeded
            \<or> (\<exists>t. extractTextContent_fixed demo_quota_env (data demo_event) = Inr t
                   \<and> \<not> (t = [] \<or> length (trim t) < 10)
                   \<and> generateEmbedding demo_quota_env t = Inl QuotaExceeded)"
    by (simp add: demo_extract demo_quota demo_title)
  have o: "openai demo_quota_env = Some (\<lambda>text. Inl ?quota)"
    by (simp add: demo_quota_env_def)
  have p: "\<exists>client t. openai demo_quota_env = Some client
             \<and> extractTextContent demo_quota_env (data demo_event) (modelName demo_event) = Inr t
             \<and> 10 \<le> length (trim t) \<and> 10 \<le> length (preprocessText t)
             \<and> client (preprocessText t) = Inl ?quota"
    by (simp add: o demo_extract demo_title)
  have n: "modelName demo_event = ''api::article.article''" by (simp add: demo_event_def)
  have q: "message QuotaExceeded = ''OpenAI API quota exceeded''" by (simp add: QuotaExceeded_def)
  have c: "generateEmbedding_catch ?quota = QuotaExceeded" by (simp add: generateEmbedding_catch_def)
  from processDocumentEmbedding_fail_open [of demo_quota_env demo_event "''create''" QuotaExceeded] m f g
  have by_error: "processDocumentEmbedding demo_quota_env demo_event ''create'' =
     Inr (data demo_event,
          [(Err, ''Failed to generate embedding for api::article.article document:'',
            Some ''OpenAI API quota exceeded'')])
   \<and> processDocumentEmbedding_fixed demo_quota_env demo_event ''create'' =
     Inr (data demo_event,
          [(Err, ''Failed to generate embedding for api::article.article document:'',
            Some ''OpenAI API quota exceeded'')])"
    by (simp only: n q append.simps simp_thms)
  from processDocumentEmbedding_fail_open [of demo_quota_env demo_event "''create''" ?quota] m p
  have by_provider: "processDocumentEmbedding demo_quota_env demo_event ''create'' =
     Inr (data demo_event,
          [(Err, ''Failed to generate embedding for api::article.article document:'',
            Some ''OpenAI API quota exceeded'')])"
    by (simp only: n q c append.simps simp_thms)
  show ?thesis using by_provider conjunct2 [OF by_error] by (rule conjI)
qed

end
